theory Spec2Isabelle
  imports Main "HOL-Library.Word"
begin

section \<open>Data model (src/lib/firestore.ts)\<close>

text \<open>
  The recording ledger is the Firestore collection \<^verbatim>\<open>recordings\<close>: one document per
  recording, keyed by the recording id. Dates are stored as ISO strings and read back
  with \<^verbatim>\<open>new Date\<close>; both directions are the identity on valid dates, so a timestamp
  is a number of milliseconds here. The JavaScript numbers of the ledger hold integers
  and are modelled as integers; the one arithmetic operation on them, the addition of
  \<^verbatim>\<open>incrementViewCount\<close>, rounds as the addition of doubles does.
\<close>

type_synonym timestamp = nat
type_synonym byte = "8 word"

datatype status = Processing | Uploading | Ready | Error

text \<open>The interface \<^verbatim>\<open>Recording\<close>. Optional fields (\<^verbatim>\<open>thumbnailUrl?\<close>, \<^verbatim>\<open>gcsPath?\<close>)
  are options. The same record is the data of a stored document: \<^verbatim>\<open>createRecording\<close>
  writes every field, the \<^verbatim>\<open>id\<close> included.\<close>

record recording =
  rec_id :: string
  title :: string
  driveFileId :: string
  driveFolderId :: string
  duration :: int
  thumbnailUrl :: "string option"
  status :: status
  createdAt :: timestamp
  updatedAt :: timestamp
  viewCount :: int
  fileSize :: int
  gcsPath :: "string option"

text \<open>\<^verbatim>\<open>Partial<Recording>\<close>: every field may be absent.\<close>

record recording_updates =
  u_id :: "string option"
  u_title :: "string option"
  u_driveFileId :: "string option"
  u_driveFolderId :: "string option"
  u_duration :: "int option"
  u_thumbnailUrl :: "string option"
  u_status :: "status option"
  u_createdAt :: "timestamp option"
  u_updatedAt :: "timestamp option"
  u_viewCount :: "int option"
  u_fileSize :: "int option"
  u_gcsPath :: "string option"

definition no_updates :: recording_updates where
  "no_updates = \<lparr> u_id = None, u_title = None, u_driveFileId = None, u_driveFolderId = None,
     u_duration = None, u_thumbnailUrl = None, u_status = None, u_createdAt = None,
     u_updatedAt = None, u_viewCount = None, u_fileSize = None, u_gcsPath = None \<rparr>"

datatype quality = Q720p | Q1080p | Q4k

record settings =
  s_driveFolderId :: string
  defaultQuality :: quality
  defaultMicEnabled :: bool
  defaultWebcamEnabled :: bool

text \<open>A file of the final store (Google Drive), as \<^verbatim>\<open>drive.files.create\<close> and
  \<^verbatim>\<open>drive.permissions.create\<close> leave it.\<close>

record drive_file =
  file_id :: string
  file_name :: string
  mime_type :: string
  parent :: string
  content :: "byte list"
  anyone_reader :: bool

text \<open>A write request to the collection of recordings: \<^verbatim>\<open>set\<close> with the whole
  document, \<^verbatim>\<open>update\<close> with the update data, \<^verbatim>\<open>delete\<close>.\<close>

datatype store_write =
    Set_doc string recording
  | Update_doc string recording_updates
  | Delete_doc string

text \<open>
  The state the handlers act on: the two Firestore documents collections in use, the
  holding bucket (Google Cloud Storage) and the files of the final store. The field
  \<open>writes\<close> is a history variable, not program state: every write that the store
  accepts for a recording document is appended, oldest first, with the document key and
  the data written, so that what one write carries, and the sequence of status values a
  recording passes through, can be stated.
\<close>

record world =
  recordings :: "string \<rightharpoonup> recording"
  settings_doc :: "settings option"
  bucket :: "string \<rightharpoonup> byte list"
  drive :: "drive_file list"
  writes :: "store_write list"

text \<open>What a call can throw. Reads of the document store are taken to succeed;
  \<^verbatim>\<open>DocumentReference.update\<close> rejects when the document does not exist, and
  \<^verbatim>\<open>CollectionReference.doc\<close> rejects a string that is no path of a document.\<close>

datatype exn = No_document string | Invalid_path string | Drive_failure | Gcs_failure

section \<open>The ledger operations\<close>

text \<open>The status that a write carries, if any, and the journal of a state: the status
  values written so far, each with the key of its document, oldest first.\<close>

definition log_status :: "string \<Rightarrow> recording_updates \<Rightarrow> (string \<times> status) list" where
  "log_status i u = (case u_status u of None \<Rightarrow> [] | Some s \<Rightarrow> [(i, s)])"

definition status_written :: "store_write \<Rightarrow> (string \<times> status) list" where
  "status_written x =
     (case x of
        Set_doc i r \<Rightarrow> [(i, status r)]
      | Update_doc i u \<Rightarrow> log_status i u
      | Delete_doc i \<Rightarrow> [])"

definition journal :: "world \<Rightarrow> (string \<times> status) list" where
  "journal w = concat (map status_written (writes w))"

text \<open>\<^verbatim>\<open>createRecording\<close>: the argument carries every field but \<^verbatim>\<open>createdAt\<close>,
  \<^verbatim>\<open>updatedAt\<close> and \<^verbatim>\<open>viewCount\<close>, which are overwritten here whatever the argument
  record holds. \<^verbatim>\<open>set\<close> replaces a document already stored under the key.\<close>

definition createRecording :: "timestamp \<Rightarrow> recording \<Rightarrow> world \<Rightarrow> recording \<times> world" where
  "createRecording now r w =
     (let fullRecording = r\<lparr> createdAt := now, updatedAt := now, viewCount := 0 \<rparr>
      in (fullRecording,
          w\<lparr> recordings := (recordings w)(rec_id r \<mapsto> fullRecording),
             writes := writes w @ [Set_doc (rec_id r) fullRecording] \<rparr>))"

definition getRecording :: "string \<Rightarrow> world \<Rightarrow> recording option" where
  "getRecording i w =
     (case recordings w i of
        None \<Rightarrow> None
      | Some data \<Rightarrow> Some (data\<lparr> rec_id := i \<rparr>))"

text \<open>The merge of \<^verbatim>\<open>DocumentReference.update\<close>: a field present in the update data
  replaces the stored one, every other field stays.\<close>

definition merge_fields :: "recording_updates \<Rightarrow> recording \<Rightarrow> recording" where
  "merge_fields u d =
     \<lparr> rec_id = (case u_id u of None \<Rightarrow> rec_id d | Some v \<Rightarrow> v),
       title = (case u_title u of None \<Rightarrow> title d | Some v \<Rightarrow> v),
       driveFileId = (case u_driveFileId u of None \<Rightarrow> driveFileId d | Some v \<Rightarrow> v),
       driveFolderId = (case u_driveFolderId u of None \<Rightarrow> driveFolderId d | Some v \<Rightarrow> v),
       duration = (case u_duration u of None \<Rightarrow> duration d | Some v \<Rightarrow> v),
       thumbnailUrl = (case u_thumbnailUrl u of None \<Rightarrow> thumbnailUrl d | Some v \<Rightarrow> Some v),
       status = (case u_status u of None \<Rightarrow> status d | Some v \<Rightarrow> v),
       createdAt = (case u_createdAt u of None \<Rightarrow> createdAt d | Some v \<Rightarrow> v),
       updatedAt = (case u_updatedAt u of None \<Rightarrow> updatedAt d | Some v \<Rightarrow> v),
       viewCount = (case u_viewCount u of None \<Rightarrow> viewCount d | Some v \<Rightarrow> v),
       fileSize = (case u_fileSize u of None \<Rightarrow> fileSize d | Some v \<Rightarrow> v),
       gcsPath = (case u_gcsPath u of None \<Rightarrow> gcsPath d | Some v \<Rightarrow> Some v) \<rparr>"

text \<open>\<^verbatim>\<open>updateRecording\<close>: \<^verbatim>\<open>updateData\<close> is the updates with \<^verbatim>\<open>updatedAt\<close> replaced by
  the current time; a \<^verbatim>\<open>createdAt\<close> among the updates is converted and stays in the
  update data. The document must exist.\<close>

definition updateRecording ::
  "timestamp \<Rightarrow> string \<Rightarrow> recording_updates \<Rightarrow> world \<Rightarrow> (exn + unit) \<times> world" where
  "updateRecording now i updates w =
     (let updateData = updates\<lparr> u_updatedAt := Some now \<rparr>;
          updateData = (case u_createdAt updates of
                          None \<Rightarrow> updateData
                        | Some c \<Rightarrow> updateData\<lparr> u_createdAt := Some c \<rparr>)
      in case recordings w i of
           None \<Rightarrow> (Inl (No_document i), w)
         | Some d \<Rightarrow>
             (Inr (), w\<lparr> recordings := (recordings w)(i \<mapsto> merge_fields updateData d),
                         writes := writes w @ [Update_doc i updateData] \<rparr>))"

text \<open>\<^verbatim>\<open>deleteRecording\<close>: \<^verbatim>\<open>DocumentReference.delete\<close> succeeds whether or not the
  document exists.\<close>

definition deleteRecording :: "string \<Rightarrow> world \<Rightarrow> (exn + unit) \<times> world" where
  "deleteRecording i w =
     (Inr (), w\<lparr> recordings := (recordings w)(i := None),
                 writes := writes w @ [Delete_doc i] \<rparr>)"

text \<open>\<^verbatim>\<open>x || 0\<close> on a number.\<close>

definition or_zero :: "int \<Rightarrow> int" where
  "or_zero x = (if x = 0 then 0 else x)"

text \<open>
  The sum of two JavaScript numbers that hold integers: the exact sum, rounded to the
  nearest double, a tie to the one with the even significand. A double carries 53
  bits, so up to \<open>2 ^ 53\<close> in size every integer is a double; above, the doubles are the
  multiples of a power of two: an integer of \<open>n\<close> binary digits, \<open>n\<close> above 53, is
  rounded to a multiple of \<open>2 ^ (n - 53)\<close>. (Sums beyond the largest finite double are
  left out.) \<open>bit_length\<close> is the number of binary digits.
\<close>

fun bit_length :: "nat \<Rightarrow> nat" where
  "bit_length 0 = 0"
| "bit_length (Suc n) = Suc (bit_length (Suc n div 2))"

definition round_to_double :: "int \<Rightarrow> int" where
  "round_to_double x =
     (let m = nat \<bar>x\<bar>;
          q = 2 ^ (bit_length m - 53);
          lo = (m div q) * q;
          r = m - lo;
          nearest = (if 2 * r < q then lo
                     else if q < 2 * r then lo + q
                     else if even (m div q) then lo else lo + q)
      in if x < 0 then - int nearest else int nearest)"

definition js_add :: "int \<Rightarrow> int \<Rightarrow> int" where
  "js_add x y = round_to_double (x + y)"

text \<open>
  \<^verbatim>\<open>incrementViewCount\<close>. The function passed to \<^verbatim>\<open>runTransaction\<close> reads the document
  and, when it exists, asks for the update of \<^verbatim>\<open>viewCount\<close> and \<^verbatim>\<open>updatedAt\<close>:
  \<open>view_update\<close> is that function, from the snapshot read to the update data, and
  \<open>transaction_write\<close> is the update applied when the transaction commits.
\<close>

definition view_update :: "timestamp \<Rightarrow> recording option \<Rightarrow> recording_updates option" where
  "view_update now doc =
     (case doc of
        Some d \<Rightarrow>
          (let currentCount = or_zero (viewCount d)
           in Some (no_updates\<lparr> u_viewCount := Some (js_add currentCount 1),
                                u_updatedAt := Some now \<rparr>))
      | None \<Rightarrow> None)"

definition transaction_write :: "string \<Rightarrow> recording_updates option \<Rightarrow> world \<Rightarrow> world" where
  "transaction_write k upd w =
     (case upd of
        None \<Rightarrow> w
      | Some u \<Rightarrow>
          (case recordings w k of
             None \<Rightarrow> w
           | Some d \<Rightarrow> w\<lparr> recordings := (recordings w)(k \<mapsto> merge_fields u d),
                           writes := writes w @ [Update_doc k u] \<rparr>))"

text \<open>
  The call itself, run with no other request in between. \<^verbatim>\<open>doc(id)\<close> is a library
  call: what it does with a string is a parameter, \<open>key_of\<close> (the field \<open>doc_key\<close> of
  the environment below), which gives the key of the document that the string
  addresses, or nothing when the library rejects the string (the empty string, for
  one). The other ledger operations are modelled for ids
  that address their own document, as every id that the create handlers make does.
\<close>

definition incrementViewCount ::
  "(string \<Rightarrow> string option) \<Rightarrow> timestamp \<Rightarrow> string \<Rightarrow> world \<Rightarrow> (exn + unit) \<times> world" where
  "incrementViewCount key_of now i w =
     (case key_of i of
        None \<Rightarrow> (Inl (Invalid_path i), w)
      | Some k \<Rightarrow> (Inr (), transaction_write k (view_update now (recordings w k)) w))"

definition getSettings :: "world \<Rightarrow> settings option" where
  "getSettings w = settings_doc w"

definition saveSettings :: "settings \<Rightarrow> world \<Rightarrow> world" where
  "saveSettings s w = w\<lparr> settings_doc := Some s \<rparr>"

section \<open>The object stores (src/lib/drive.ts)\<close>

text \<open>
  What the outside world decides during one request: the times read by \<^verbatim>\<open>new Date()\<close>
  (\<open>clock env k\<close> is the time of the request's \<open>k\<close>-th ledger write), whether each
  remote call succeeds, and the id Google Drive assigns to a created file
  (\<open>None\<close>: \<^verbatim>\<open>files.create\<close> throws), the string \<^verbatim>\<open>uuidv4()\<close> returns, and what
  \<^verbatim>\<open>doc(id)\<close> makes of a string.
\<close>

record env =
  clock :: "nat \<Rightarrow> timestamp"
  gcs_exists_ok :: bool
  gcs_download_ok :: bool
  gcs_delete_ok :: bool
  drive_create :: "string option"
  drive_permission_ok :: bool
  drive_get_ok :: bool
  drive_delete_ok :: bool
  gcs_sign_ok :: bool
  uuid :: string
  doc_key :: "string \<Rightarrow> string option"

text \<open>Sequencing of awaited calls: a rejection skips what follows, the effects made so
  far stay.\<close>

definition and_then ::
  "(exn + 'a) \<times> world \<Rightarrow> ('a \<Rightarrow> world \<Rightarrow> (exn + 'b) \<times> world) \<Rightarrow> (exn + 'b) \<times> world" where
  "and_then m f = (case m of (Inl e, w) \<Rightarrow> (Inl e, w) | (Inr x, w) \<Rightarrow> f x w)"

text \<open>The three Drive calls that \<^verbatim>\<open>uploadToDriveResumable\<close> and
  \<^verbatim>\<open>transferFromGcsToDrive\<close> both make, in this order: \<^verbatim>\<open>files.create\<close> with the name
  and \<^verbatim>\<open>parents: [folderId]\<close>, \<^verbatim>\<open>permissions.create\<close> (reader, anyone),
  \<^verbatim>\<open>files.get\<close>, which answers the id of the file created. Of the result only
  \<^verbatim>\<open>fileId\<close> is used by the callers and modelled.\<close>

definition drive_files_create ::
  "env \<Rightarrow> byte list \<Rightarrow> string \<Rightarrow> string \<Rightarrow> string \<Rightarrow> world \<Rightarrow> (exn + string) \<times> world" where
  "drive_files_create env buffer fileName mimeType folderId w =
     (case drive_create env of
        None \<Rightarrow> (Inl Drive_failure, w)
      | Some fileId \<Rightarrow>
          (let w1 = w\<lparr> drive := drive w @
                     [\<lparr> file_id = fileId, file_name = fileName, mime_type = mimeType,
                        parent = folderId, content = buffer, anyone_reader = False \<rparr>] \<rparr>
           in if \<not> drive_permission_ok env then (Inl Drive_failure, w1)
              else
                (let w2 = w1\<lparr> drive :=
                            map (\<lambda>f. if file_id f = fileId then f\<lparr> anyone_reader := True \<rparr> else f)
                              (drive w1) \<rparr>
                 in if \<not> drive_get_ok env then (Inl Drive_failure, w2)
                    else (Inr fileId, w2))))"

definition uploadToDriveResumable ::
  "env \<Rightarrow> byte list \<Rightarrow> string \<Rightarrow> string \<Rightarrow> string \<Rightarrow> world \<Rightarrow> (exn + string) \<times> world" where
  "uploadToDriveResumable env fileBuffer fileName mimeType folderId w =
     drive_files_create env fileBuffer fileName mimeType folderId w"

text \<open>\<^verbatim>\<open>transferFromGcsToDrive\<close>: download the object (a missing object makes the
  download throw), put it into Drive, then delete the object; a failed delete is
  caught and logged.\<close>

definition transferFromGcsToDrive ::
  "env \<Rightarrow> string \<Rightarrow> string \<Rightarrow> string \<Rightarrow> world \<Rightarrow> (exn + string) \<times> world" where
  "transferFromGcsToDrive env path fileName folderId w =
     (case (if gcs_download_ok env then bucket w path else None) of
        None \<Rightarrow> (Inl Gcs_failure, w)
      | Some buffer \<Rightarrow>
          and_then (drive_files_create env buffer fileName ''video/webm'' folderId w)
            (\<lambda>fileId w.
               (Inr fileId,
                if gcs_delete_ok env then w\<lparr> bucket := (bucket w)(path := None) \<rparr> else w)))"

definition checkGcsFile :: "env \<Rightarrow> string \<Rightarrow> world \<Rightarrow> exn + bool" where
  "checkGcsFile env path w =
     (if gcs_exists_ok env then Inr (bucket w path \<noteq> None) else Inl Gcs_failure)"

text \<open>\<^verbatim>\<open>generateSignedUploadUrl\<close>: the holding path of a recording id (the signed URL
  itself is opaque and left out).\<close>

definition holding_path :: "string \<Rightarrow> string" where
  "holding_path recordingId = ''uploads/'' @ recordingId @ ''.webm''"

section \<open>The derived file name\<close>

text \<open>The character class \<^verbatim>\<open>a-zA-Z0-9\<close> of the regular expression, as ranges of
  character codes. The expression has no \<^verbatim>\<open>u\<close> flag, so it replaces code unit by code
  unit; a character of the model is a code unit below 256.\<close>

definition in_class :: "char \<Rightarrow> bool" where
  "in_class c =
     (let n = (of_char c :: nat)
      in (97 \<le> n \<and> n \<le> 122) \<or> (65 \<le> n \<and> n \<le> 90) \<or> (48 \<le> n \<and> n \<le> 57))"

text \<open>\<^verbatim>\<open>title.replace(/[^a-zA-Z0-9]/g, '_')\<close>\<close>

definition replace_unsafe :: "string \<Rightarrow> string" where
  "replace_unsafe t = map (\<lambda>c. if \<not> in_class c then CHR ''_'' else c) t"

text \<open>The template string of both upload handlers.\<close>

definition fileName_of :: "string \<Rightarrow> string \<Rightarrow> string" where
  "fileName_of ttl i = replace_unsafe ttl @ ''_'' @ i @ ''.webm''"

text \<open>The safe character set as the specification names it: the letters and the
  digits.\<close>

definition alnum_chars :: string where
  "alnum_chars = ''abcdefghijklmnopqrstuvwxyzABCDEFGHIJKLMNOPQRSTUVWXYZ0123456789''"

section \<open>The request handlers\<close>

datatype body =
    Error_message string
  | Error_thrown exn
  | Upload_done string
  | Upload_stored string
  | Status_of status string
  | Recording_of "recording option"
  | Created recording string
  | Success

datatype response = Response nat body

definition set_status :: "status \<Rightarrow> recording_updates" where
  "set_status s = no_updates\<lparr> u_status := Some s \<rparr>"

subsection \<open>PUT /api/upload/[id]: the direct upload\<close>

definition PUT_try :: "env \<Rightarrow> string \<Rightarrow> byte list \<Rightarrow> world \<Rightarrow> (exn + response) \<times> world" where
  "PUT_try env i buffer w =
     (case getRecording i w of
        None \<Rightarrow> (Inr (Response 404 (Error_message ''Recording not found'')), w)
      | Some recording \<Rightarrow>
          (case getSettings w of
             None \<Rightarrow> (Inr (Response 400 (Error_message
                 ''Google Drive folder not configured. Please go to Settings and add your Drive folder.'')), w)
           | Some settings \<Rightarrow>
               if s_driveFolderId settings = []
               then (Inr (Response 400 (Error_message
                 ''Google Drive folder not configured. Please go to Settings and add your Drive folder.'')), w)
               else
                 and_then (updateRecording (clock env 0) i (set_status Uploading) w)
                   (\<lambda>_ w.
                      if length buffer = 0
                      then and_then (updateRecording (clock env 1) i (set_status Error) w)
                             (\<lambda>_ w. (Inr (Response 400
                                        (Error_message ''Empty video file received'')), w))
                      else
                        (let fileName = fileName_of (title recording) i
                         in and_then (uploadToDriveResumable env buffer fileName ''video/webm''
                                        (s_driveFolderId settings) w)
                              (\<lambda>fileId w.
                                 and_then (updateRecording (clock env 1) i
                                             (no_updates\<lparr> u_driveFileId := Some fileId,
                                                u_status := Some Ready,
                                                u_fileSize := Some (int (length buffer)) \<rparr>) w)
                                   (\<lambda>_ w. (Inr (Response 200 (Upload_done fileId)), w)))))))"

text \<open>The \<^verbatim>\<open>catch\<close> block: try to mark the recording as failed, ignore a failure of
  that write, answer 500 with the message of the error caught.\<close>

definition on_error :: "env \<Rightarrow> string \<Rightarrow> (exn + response) \<times> world \<Rightarrow> response \<times> world" where
  "on_error env i m =
     (case m of
        (Inr resp, w) \<Rightarrow> (resp, w)
      | (Inl error, w) \<Rightarrow>
          (Response 500 (Error_thrown error),
           snd (updateRecording (clock env 2) i (set_status Error) w)))"

definition PUT :: "env \<Rightarrow> string \<Rightarrow> byte list \<Rightarrow> world \<Rightarrow> response \<times> world" where
  "PUT env i buffer w = on_error env i (PUT_try env i buffer w)"

subsection \<open>POST /api/upload/[id]/transfer: the transfer trigger\<close>

definition POST_transfer_try :: "env \<Rightarrow> string \<Rightarrow> world \<Rightarrow> (exn + response) \<times> world" where
  "POST_transfer_try env i w =
     (case getRecording i w of
        None \<Rightarrow> (Inr (Response 404 (Error_message ''Recording not found'')), w)
      | Some recording \<Rightarrow>
          (case (case gcsPath recording of None \<Rightarrow> None
                 | Some p \<Rightarrow> if p = [] then None else Some p) of
             None \<Rightarrow> (Inr (Response 400
                         (Error_message ''No upload found for this recording'')), w)
           | Some path \<Rightarrow>
               and_then (checkGcsFile env path w, w)
                 (\<lambda>exists w.
                    if \<not> exists
                    then and_then (updateRecording (clock env 0) i (set_status Error) w)
                           (\<lambda>_ w. (Inr (Response 404 (Error_message
                              ''Upload file not found. Please try recording again.'')), w))
                    else
                      (case getSettings w of
                         None \<Rightarrow> (Inr (Response 400
                                     (Error_message ''Google Drive folder not configured'')), w)
                       | Some settings \<Rightarrow>
                           if s_driveFolderId settings = []
                           then (Inr (Response 400
                                   (Error_message ''Google Drive folder not configured'')), w)
                           else
                             and_then (updateRecording (clock env 0) i (set_status Uploading) w)
                               (\<lambda>_ w.
                                  (let fileName = fileName_of (title recording) i
                                   in and_then (transferFromGcsToDrive env path fileName
                                                  (s_driveFolderId settings) w)
                                        (\<lambda>fileId w.
                                           and_then (updateRecording (clock env 1) i
                                                       (no_updates\<lparr> u_driveFileId := Some fileId,
                                                          u_status := Some Ready,
                                                          u_gcsPath := Some [] \<rparr>) w)
                                             (\<lambda>_ w. (Inr (Response 200
                                                        (Upload_done fileId)), w)))))))))"

definition POST_transfer :: "env \<Rightarrow> string \<Rightarrow> world \<Rightarrow> response \<times> world" where
  "POST_transfer env i w = on_error env i (POST_transfer_try env i w)"

subsection \<open>GET /api/upload/[id]: the status check\<close>

definition GET_status :: "string \<Rightarrow> world \<Rightarrow> response" where
  "GET_status i w =
     (case getRecording i w of
        None \<Rightarrow> Response 404 (Error_message ''Recording not found'')
      | Some recording \<Rightarrow> Response 200 (Status_of (status recording) (driveFileId recording)))"

subsection \<open>POST /api/upload: creating a recording\<close>

text \<open>The fields read from the JSON body; \<open>None\<close> is an absent field.\<close>

record create_request =
  req_title :: "string option"
  req_duration :: "int option"
  req_fileSize :: "int option"

definition new_recording ::
  "string \<Rightarrow> create_request \<Rightarrow> settings \<Rightarrow> string option \<Rightarrow> recording" where
  "new_recording i req settings path =
     \<lparr> rec_id = i,
       title = (case req_title req of None \<Rightarrow> ''Untitled Recording''
                | Some t \<Rightarrow> if t = [] then ''Untitled Recording'' else t),
       driveFileId = [],
       driveFolderId = s_driveFolderId settings,
       duration = (case req_duration req of None \<Rightarrow> 0 | Some d \<Rightarrow> or_zero d),
       thumbnailUrl = None,
       status = Processing,
       createdAt = 0, updatedAt = 0, viewCount = 0,
       fileSize = (case req_fileSize req of None \<Rightarrow> 0 | Some n \<Rightarrow> or_zero n),
       gcsPath = path \<rparr>"

text \<open>The handler that hands out a signed URL of the holding area and stores the
  holding path in the new recording. \<open>None\<close> as the body is a request whose content type
  is not JSON.\<close>

definition POST_upload :: "env \<Rightarrow> create_request option \<Rightarrow> world \<Rightarrow> response \<times> world" where
  "POST_upload env req w =
     (case req of
        None \<Rightarrow> (Response 400 (Error_message ''Invalid request''), w)
      | Some body \<Rightarrow>
          (case getSettings w of
             None \<Rightarrow> (Response 400 (Error_message
                ''Google Drive folder not configured. Please set up in Settings.''), w)
           | Some settings \<Rightarrow>
               if s_driveFolderId settings = []
               then (Response 400 (Error_message
                  ''Google Drive folder not configured. Please set up in Settings.''), w)
               else
                 (let i = take 8 (uuid env)
                  in if \<not> gcs_sign_ok env
                     then (Response 500 (Error_message ''Upload failed''), w)
                     else
                       (let (recording, w') =
                              createRecording (clock env 0)
                                (new_recording i body settings (Some (holding_path i))) w
                        in (Response 200 (Created recording (''/v/'' @ i)), w')))))"

text \<open>The handler of the direct path: the same, with no holding path.\<close>

definition POST_upload_direct ::
  "env \<Rightarrow> create_request option \<Rightarrow> world \<Rightarrow> response \<times> world" where
  "POST_upload_direct env req w =
     (case req of
        None \<Rightarrow> (Response 400 (Error_message ''Invalid request''), w)
      | Some body \<Rightarrow>
          (case getSettings w of
             None \<Rightarrow> (Response 400 (Error_message
                ''Google Drive folder not configured. Please set up in Settings.''), w)
           | Some settings \<Rightarrow>
               if s_driveFolderId settings = []
               then (Response 400 (Error_message
                  ''Google Drive folder not configured. Please set up in Settings.''), w)
               else
                 (let i = take 8 (uuid env);
                      (recording, w') =
                        createRecording (clock env 0) (new_recording i body settings None) w
                  in (Response 200 (Created recording (''/v/'' @ i)), w'))))"

subsection \<open>PUT /api/upload: the upload handler of the direct path\<close>

text \<open>The handler that stands beside \<open>POST_upload_direct\<close>. The id is the query
  parameter \<^verbatim>\<open>id\<close>, \<open>None\<close> when the URL has none. The recording is not read, the
  file name does not use the title, the answer names the file id only, and the
  \<^verbatim>\<open>catch\<close> block writes nothing.\<close>

definition PUT_legacy_try ::
  "env \<Rightarrow> string option \<Rightarrow> byte list \<Rightarrow> world \<Rightarrow> (exn + response) \<times> world" where
  "PUT_legacy_try env recordingId buffer w =
     (case (case recordingId of None \<Rightarrow> None
            | Some i \<Rightarrow> if i = [] then None else Some i) of
        None \<Rightarrow> (Inr (Response 400 (Error_message ''Recording ID required'')), w)
      | Some i \<Rightarrow>
          (case getSettings w of
             None \<Rightarrow> (Inr (Response 400
                         (Error_message ''Google Drive folder not configured'')), w)
           | Some settings \<Rightarrow>
               if s_driveFolderId settings = []
               then (Inr (Response 400
                       (Error_message ''Google Drive folder not configured'')), w)
               else
                 and_then (updateRecording (clock env 0) i (set_status Uploading) w)
                   (\<lambda>_ w.
                      (let fileName = ''recording_'' @ i @ ''.webm''
                       in and_then (uploadToDriveResumable env buffer fileName ''video/webm''
                                      (s_driveFolderId settings) w)
                            (\<lambda>fileId w.
                               and_then (updateRecording (clock env 1) i
                                           (no_updates\<lparr> u_driveFileId := Some fileId,
                                              u_status := Some Ready \<rparr>) w)
                                 (\<lambda>_ w. (Inr (Response 200 (Upload_stored fileId)), w)))))))"

definition PUT_legacy :: "env \<Rightarrow> string option \<Rightarrow> byte list \<Rightarrow> world \<Rightarrow> response \<times> world" where
  "PUT_legacy env recordingId buffer w =
     (case PUT_legacy_try env recordingId buffer w of
        (Inr resp, w') \<Rightarrow> (resp, w')
      | (Inl error, w') \<Rightarrow> (Response 500 (Error_message ''Upload failed''), w'))"

subsection \<open>PUT /api/upload/[id]: the earlier version\<close>

text \<open>The version of the handler kept beside the transfer trigger: the payload is not
  checked for emptiness, the misconfiguration message is the short one, and every error
  is answered with the same message.\<close>

definition PUT_earlier_try :: "env \<Rightarrow> string \<Rightarrow> byte list \<Rightarrow> world \<Rightarrow> (exn + response) \<times> world" where
  "PUT_earlier_try env i buffer w =
     (case getRecording i w of
        None \<Rightarrow> (Inr (Response 404 (Error_message ''Recording not found'')), w)
      | Some recording \<Rightarrow>
          (case getSettings w of
             None \<Rightarrow> (Inr (Response 400
                         (Error_message ''Google Drive folder not configured'')), w)
           | Some settings \<Rightarrow>
               if s_driveFolderId settings = []
               then (Inr (Response 400
                       (Error_message ''Google Drive folder not configured'')), w)
               else
                 and_then (updateRecording (clock env 0) i (set_status Uploading) w)
                   (\<lambda>_ w.
                      (let fileName = fileName_of (title recording) i
                       in and_then (uploadToDriveResumable env buffer fileName ''video/webm''
                                      (s_driveFolderId settings) w)
                            (\<lambda>fileId w.
                               and_then (updateRecording (clock env 1) i
                                           (no_updates\<lparr> u_driveFileId := Some fileId,
                                              u_status := Some Ready,
                                              u_fileSize := Some (int (length buffer)) \<rparr>) w)
                                 (\<lambda>_ w. (Inr (Response 200 (Upload_done fileId)), w)))))))"

definition PUT_earlier :: "env \<Rightarrow> string \<Rightarrow> byte list \<Rightarrow> world \<Rightarrow> response \<times> world" where
  "PUT_earlier env i buffer w =
     (case PUT_earlier_try env i buffer w of
        (Inr resp, w') \<Rightarrow> (resp, w')
      | (Inl error, w') \<Rightarrow>
          (Response 500 (Error_message ''Upload failed''),
           snd (updateRecording (clock env 2) i (set_status Error) w')))"

subsection \<open>POST /api/recordings: create and upload in the background\<close>

text \<open>
  The fields of the form: the file (\<open>None\<close>: no \<^verbatim>\<open>video\<close> field), the title, and the
  duration as \<^verbatim>\<open>parseInt\<close> reads it (\<open>None\<close>: not a number). The handler creates
  the recording, starts \<^verbatim>\<open>uploadInBackground\<close> without awaiting it, and answers; what it
  has started is returned here as the job, the arguments of that call.
\<close>

record job =
  job_recordingId :: string
  job_file :: "byte list"
  job_title :: string
  job_folderId :: string

definition POST_recordings ::
  "env \<Rightarrow> byte list option \<Rightarrow> string option \<Rightarrow> int option \<Rightarrow> world
     \<Rightarrow> (response \<times> job option) \<times> world" where
  "POST_recordings env file form_title form_duration w =
     (let ttl = (case form_title of None \<Rightarrow> ''Untitled Recording''
                 | Some t \<Rightarrow> if t = [] then ''Untitled Recording'' else t);
          dur = (case form_duration of None \<Rightarrow> 0 | Some d \<Rightarrow> or_zero d)
      in case file of
           None \<Rightarrow> ((Response 400 (Error_message ''No video file provided''), None), w)
         | Some bytes \<Rightarrow>
             (case getSettings w of
                None \<Rightarrow> ((Response 400 (Error_message
                   ''Google Drive folder not configured. Please set up in Settings.''), None), w)
              | Some settings \<Rightarrow>
                  if s_driveFolderId settings = []
                  then ((Response 400 (Error_message
                     ''Google Drive folder not configured. Please set up in Settings.''), None), w)
                  else
                    (let i = take 8 (uuid env);
                         (recording, w') =
                           createRecording (clock env 0)
                             \<lparr> rec_id = i, title = ttl, driveFileId = [],
                               driveFolderId = s_driveFolderId settings, duration = dur,
                               thumbnailUrl = None, status = Processing,
                               createdAt = 0, updatedAt = 0, viewCount = 0,
                               fileSize = int (length bytes), gcsPath = None \<rparr> w
                     in ((Response 200 (Created recording (''/v/'' @ i)),
                          Some \<lparr> job_recordingId = i, job_file = bytes, job_title = ttl,
                                 job_folderId = s_driveFolderId settings \<rparr>), w'))))"

text \<open>\<^verbatim>\<open>uploadInBackground\<close>. The write of the \<^verbatim>\<open>catch\<close> block is awaited and not
  guarded: when it is rejected, so is the call.\<close>

definition uploadInBackground_try :: "env \<Rightarrow> job \<Rightarrow> world \<Rightarrow> (exn + unit) \<times> world" where
  "uploadInBackground_try env j w =
     and_then (updateRecording (clock env 1) (job_recordingId j) (set_status Uploading) w)
       (\<lambda>_ w.
          (let fileName = fileName_of (job_title j) (job_recordingId j)
           in and_then (uploadToDriveResumable env (job_file j) fileName ''video/webm''
                          (job_folderId j) w)
                (\<lambda>fileId w.
                   updateRecording (clock env 2) (job_recordingId j)
                     (no_updates\<lparr> u_driveFileId := Some fileId, u_status := Some Ready \<rparr>) w)))"

definition uploadInBackground :: "env \<Rightarrow> job \<Rightarrow> world \<Rightarrow> (exn + unit) \<times> world" where
  "uploadInBackground env j w =
     (case uploadInBackground_try env j w of
        (Inr u, w') \<Rightarrow> (Inr u, w')
      | (Inl error, w') \<Rightarrow>
          updateRecording (clock env 3) (job_recordingId j) (set_status Error) w')"

text \<open>The request together with the upload it starts, when nothing else is handled
  before the upload has finished.\<close>

definition POST_recordings_upload ::
  "env \<Rightarrow> byte list option \<Rightarrow> string option \<Rightarrow> int option \<Rightarrow> world \<Rightarrow> response \<times> world" where
  "POST_recordings_upload env file form_title form_duration w =
     (case POST_recordings env file form_title form_duration w of
        ((resp, None), w') \<Rightarrow> (resp, w')
      | ((resp, Some j), w') \<Rightarrow> (resp, snd (uploadInBackground env j w')))"

subsection \<open>/api/recordings/[id]: read, rename, delete\<close>

definition GET_recording :: "env \<Rightarrow> string \<Rightarrow> bool \<Rightarrow> world \<Rightarrow> response \<times> world" where
  "GET_recording env i view w =
     (case getRecording i w of
        None \<Rightarrow> (Response 404 (Error_message ''Recording not found''), w)
      | Some recording \<Rightarrow>
          if view
          then (case incrementViewCount (doc_key env) (clock env 0) i w of
                  (Inl e, w') \<Rightarrow> (Response 500 (Error_message ''Failed to get recording''), w')
                | (Inr _, w') \<Rightarrow> (Response 200 (Recording_of (Some recording)), w'))
          else (Response 200 (Recording_of (Some recording)), w))"

text \<open>Only \<^verbatim>\<open>title\<close> is copied from the body into the updates.\<close>

definition PATCH_recording ::
  "env \<Rightarrow> string \<Rightarrow> string option \<Rightarrow> world \<Rightarrow> response \<times> world" where
  "PATCH_recording env i body_title w =
     (case getRecording i w of
        None \<Rightarrow> (Response 404 (Error_message ''Recording not found''), w)
      | Some recording \<Rightarrow>
          (let updates = (case body_title of None \<Rightarrow> no_updates
                          | Some t \<Rightarrow> no_updates\<lparr> u_title := Some t \<rparr>)
           in case updateRecording (clock env 0) i updates w of
                (Inl e, w') \<Rightarrow> (Response 500 (Error_message ''Failed to update recording''), w')
              | (Inr _, w') \<Rightarrow> (Response 200 (Recording_of (getRecording i w')), w')))"

definition deleteFromDrive :: "env \<Rightarrow> string \<Rightarrow> world \<Rightarrow> (exn + unit) \<times> world" where
  "deleteFromDrive env fileId w =
     (if drive_delete_ok env
      then (Inr (), w\<lparr> drive := filter (\<lambda>f. file_id f \<noteq> fileId) (drive w) \<rparr>)
      else (Inl Drive_failure, w))"

definition DELETE_recording :: "env \<Rightarrow> string \<Rightarrow> world \<Rightarrow> response \<times> world" where
  "DELETE_recording env i w =
     (case getRecording i w of
        None \<Rightarrow> (Response 404 (Error_message ''Recording not found''), w)
      | Some recording \<Rightarrow>
          (let w1 = (if driveFileId recording \<noteq> []
                     then snd (deleteFromDrive env (driveFileId recording) w) else w)
           in case deleteRecording i w1 of
                (Inl e, w2) \<Rightarrow> (Response 500 (Error_message ''Failed to delete recording''), w2)
              | (Inr _, w2) \<Rightarrow> (Response 200 Success, w2)))"

subsection \<open>/v/[id]: the share page\<close>

text \<open>The page rendered for a recording, \<open>None\<close> for \<^verbatim>\<open>notFound()\<close>.\<close>

definition VideoPage :: "env \<Rightarrow> string \<Rightarrow> world \<Rightarrow> (exn + recording option) \<times> world" where
  "VideoPage env i w =
     (case getRecording i w of
        None \<Rightarrow> (Inr None, w)
      | Some recording \<Rightarrow>
          and_then (incrementViewCount (doc_key env) (clock env 0) i w)
            (\<lambda>_ w. (Inr (Some recording), w)))"

section \<open>Concurrent viewers\<close>

text \<open>
  \<^verbatim>\<open>firestore.runTransaction\<close> is a library call, modelled after its contract: the
  transaction function is run; its writes are committed only if the documents it read
  have not changed since, and otherwise the function is run again, up to a number of
  attempts (the library's \<^verbatim>\<open>maxAttempts\<close>), after which the call is rejected.
  A running call of \<^verbatim>\<open>incrementViewCount\<close> has either not read the document in its
  current attempt, or holds the snapshot it read and the time its function read for
  \<^verbatim>\<open>updatedAt\<close>, or has committed, or has given up; with it goes the number of attempts
  that have failed. When a call is scheduled it takes its next step. A schedule is the
  list of the calls scheduled, each with the time of the step; \<open>k\<close> is the key of the
  document that the calls address.
\<close>

datatype txn =
    Not_started nat
  | Has_read nat "recording option" timestamp
  | Committed
  | Gave_up

fun txn_step :: "nat \<Rightarrow> string \<Rightarrow> nat \<times> timestamp \<Rightarrow> world \<times> txn list \<Rightarrow> world \<times> txn list" where
  "txn_step maxAttempts k (p, now) (w, ps) =
     (if p < length ps
      then (case ps ! p of
              Not_started failed \<Rightarrow> (w, ps[p := Has_read failed (recordings w k) now])
            | Has_read failed snapshot t \<Rightarrow>
                if recordings w k = snapshot
                then (transaction_write k (view_update t snapshot) w, ps[p := Committed])
                else (w, ps[p := (if Suc failed < maxAttempts
                                  then Not_started (Suc failed) else Gave_up)])
            | Committed \<Rightarrow> (w, ps)
            | Gave_up \<Rightarrow> (w, ps))
      else (w, ps))"

fun run_schedule ::
  "nat \<Rightarrow> string \<Rightarrow> (nat \<times> timestamp) list \<Rightarrow> world \<times> txn list \<Rightarrow> world \<times> txn list" where
  "run_schedule m k [] c = c"
| "run_schedule m k (e # es) c = run_schedule m k es (txn_step m k e c)"

text \<open>The number of calls that have committed.\<close>

definition committed :: "txn list \<Rightarrow> nat" where
  "committed ps = length (filter (\<lambda>p. p = Committed) ps)"


section \<open>Reachable states\<close>

definition initial_world :: world where
  "initial_world = \<lparr> recordings = Map.empty, settings_doc = None, bucket = Map.empty,
     drive = [], writes = [] \<rparr>"

text \<open>A client holding a signed URL writes an object into the holding bucket.\<close>

definition holding_upload :: "string \<Rightarrow> byte list \<Rightarrow> world \<Rightarrow> world" where
  "holding_upload path bytes w = w\<lparr> bucket := (bucket w)(path \<mapsto> bytes) \<rparr>"

text \<open>The states the system gets into, one request after the other. Google Drive hands
  out non-empty file ids, and \<^verbatim>\<open>uuidv4()\<close> returns the 36 characters of a UUID. The
  upload that \<^verbatim>\<open>POST /api/recordings\<close> starts is a step of its own, taken at any later
  moment and for any job.\<close>

inductive reachable :: "world \<Rightarrow> bool" where
  start: "reachable initial_world"
| save_settings: "reachable w \<Longrightarrow> reachable (saveSettings s w)"
| create_signed: "reachable w \<Longrightarrow> length (uuid env) = 36 \<Longrightarrow>
                  reachable (snd (POST_upload env req w))"
| create_direct: "reachable w \<Longrightarrow> length (uuid env) = 36 \<Longrightarrow>
                  reachable (snd (POST_upload_direct env req w))"
| client_upload: "reachable w \<Longrightarrow> reachable (holding_upload path bytes w)"
| direct_upload: "reachable w \<Longrightarrow> drive_create env \<noteq> Some [] \<Longrightarrow>
                  reachable (snd (PUT env i buffer w))"
| transfer: "reachable w \<Longrightarrow> drive_create env \<noteq> Some [] \<Longrightarrow>
             reachable (snd (POST_transfer env i w))"
| read_recording: "reachable w \<Longrightarrow> reachable (snd (GET_recording env i view w))"
| rename: "reachable w \<Longrightarrow> reachable (snd (PATCH_recording env i t w))"
| delete: "reachable w \<Longrightarrow> reachable (snd (DELETE_recording env i w))"
| share_page: "reachable w \<Longrightarrow> reachable (snd (VideoPage env i w))"
| create_upload: "reachable w \<Longrightarrow> length (uuid env) = 36 \<Longrightarrow>
                  reachable (snd (POST_recordings env file t d w))"
| background_upload: "reachable w \<Longrightarrow> drive_create env \<noteq> Some [] \<Longrightarrow>
                      reachable (snd (uploadInBackground env j w))"
| legacy_upload: "reachable w \<Longrightarrow> drive_create env \<noteq> Some [] \<Longrightarrow>
                  reachable (snd (PUT_legacy env recordingId buffer w))"
| earlier_upload: "reachable w \<Longrightarrow> drive_create env \<noteq> Some [] \<Longrightarrow>
                   reachable (snd (PUT_earlier env i buffer w))"

text \<open>The conditions the upload handlers branch on: the settings name a destination
  folder (\<^verbatim>\<open>settings?.driveFolderId\<close> is truthy), and the three Drive calls of an
  upload succeed.\<close>

definition configured :: "world \<Rightarrow> bool" where
  "configured w = (case getSettings w of None \<Rightarrow> False | Some s \<Rightarrow> s_driveFolderId s \<noteq> [])"

definition drive_ok :: "env \<Rightarrow> bool" where
  "drive_ok env = (drive_create env \<noteq> None \<and> drive_permission_ok env \<and> drive_get_ok env)"

text \<open>
  What the requests do to the ledger, as a relation between the state before and a
  state after: any number of ledger operations, with steps in between that leave the
  ledger and the log of its writes alone. An update either carries a non-empty file
  reference or does not set the status \<open>Ready\<close>; a recording is created with the
  status \<open>Processing\<close> under an id of eight characters.
\<close>

definition allowed_update :: "recording_updates \<Rightarrow> bool" where
  "allowed_update u =
     (case u_driveFileId u of None \<Rightarrow> u_status u \<noteq> Some Ready | Some f \<Rightarrow> f \<noteq> [])"

inductive evolves :: "world \<Rightarrow> world \<Rightarrow> bool" where
  stay: "evolves w w"
| frame: "evolves w w1 \<Longrightarrow> recordings w2 = recordings w1 \<Longrightarrow> writes w2 = writes w1 \<Longrightarrow>
          evolves w w2"
| update: "evolves w w1 \<Longrightarrow> allowed_update u \<Longrightarrow>
           evolves w (snd (updateRecording now i u w1))"
| create: "evolves w w1 \<Longrightarrow> status r = Processing \<Longrightarrow> length (rec_id r) = 8 \<Longrightarrow>
           evolves w (snd (createRecording now r w1))"
| delete: "evolves w w1 \<Longrightarrow> evolves w (snd (deleteRecording i w1))"
| view: "evolves w w1 \<Longrightarrow> evolves w (transaction_write k (view_update now doc) w1)"

text \<open>Ready recordings have a file reference.\<close>

definition ready_has_ref :: "world \<Rightarrow> bool" where
  "ready_has_ref w =
     (\<forall>i d. recordings w i = Some d \<longrightarrow> status d = Ready \<longrightarrow> driveFileId d \<noteq> [])"

text \<open>The keys of the ledger are the first eight characters of a UUID.\<close>

definition short_ids :: "world \<Rightarrow> bool" where
  "short_ids w = (\<forall>i. recordings w i \<noteq> None \<longrightarrow> length i = 8)"

text \<open>The status values written to one recording, oldest first, and what makes the
  journal the history of the stored status: for a recording of the ledger the last value
  written is the status it holds.\<close>

definition statuses_of :: "string \<Rightarrow> (string \<times> status) list \<Rightarrow> status list" where
  "statuses_of i js = map snd (filter (\<lambda>e. fst e = i) js)"

definition journal_is_history :: "world \<Rightarrow> bool" where
  "journal_is_history w =
     (\<forall>i d. recordings w i = Some d \<longrightarrow>
        statuses_of i (journal w) \<noteq> [] \<and> last (statuses_of i (journal w)) = status d)"

text \<open>Every \<open>Ready\<close> of a journal comes directly after an \<open>Uploading\<close> written to the
  same recording; \<open>prev\<close> is the entry before the journal, if any.\<close>

fun ready_follows_uploading :: "(string \<times> status) option \<Rightarrow> (string \<times> status) list \<Rightarrow> bool" where
  "ready_follows_uploading prev [] = True"
| "ready_follows_uploading prev (e # js) =
     ((snd e = Ready \<longrightarrow> prev = Some (fst e, Uploading)) \<and> ready_follows_uploading (Some e) js)"

text \<open>The file reference that a write carries, and the writes that set the status
  \<open>Ready\<close> without a non-empty file reference in the same write: there are to be
  none.\<close>

definition file_ref_written :: "store_write \<Rightarrow> string option" where
  "file_ref_written x =
     (case x of
        Set_doc i r \<Rightarrow> Some (driveFileId r)
      | Update_doc i u \<Rightarrow> u_driveFileId u
      | Delete_doc i \<Rightarrow> None)"

definition sets_ready :: "store_write \<Rightarrow> bool" where
  "sets_ready x = (Ready \<in> snd ` set (status_written x))"

definition ready_write_ok :: "store_write \<Rightarrow> bool" where
  "ready_write_ok x =
     (sets_ready x \<longrightarrow> (case file_ref_written x of None \<Rightarrow> False | Some f \<Rightarrow> f \<noteq> []))"

section \<open>Concrete states\<close>

definition demo_settings :: settings where
  "demo_settings = \<lparr> s_driveFolderId = ''F1'', defaultQuality = Q1080p,
     defaultMicEnabled = True, defaultWebcamEnabled = False \<rparr>"

definition demo_env :: env where
  "demo_env = \<lparr> clock = (\<lambda>k. 200 + k), gcs_exists_ok = True, gcs_download_ok = True,
     gcs_delete_ok = True, drive_create = Some ''drv1'', drive_permission_ok = True,
     drive_get_ok = True, drive_delete_ok = True, gcs_sign_ok = True,
     uuid = ''abc12345-1111-4111-8111-111111111111'',
     doc_key = (\<lambda>i. if i = [] \<or> CHR ''/'' \<in> set i then None else Some i) \<rparr>"

definition demo_request :: create_request where
  "demo_request = \<lparr> req_title = Some ''Demo'', req_duration = Some 42,
     req_fileSize = Some 1024 \<rparr>"

text \<open>The recording that \<open>POST_upload\<close> creates for \<open>demo_request\<close>, and the state after
  that request.\<close>

definition demo_recording :: recording where
  "demo_recording = \<lparr> rec_id = ''abc12345'', title = ''Demo'', driveFileId = [],
     driveFolderId = ''F1'', duration = 42, thumbnailUrl = None, status = Processing,
     createdAt = 200, updatedAt = 200, viewCount = 0, fileSize = 1024,
     gcsPath = Some ''uploads/abc12345.webm'' \<rparr>"

definition world_signed :: world where
  "world_signed = \<lparr> recordings = [''abc12345'' \<mapsto> demo_recording],
     settings_doc = Some demo_settings, bucket = Map.empty, drive = [],
     writes = [Set_doc ''abc12345'' demo_recording] \<rparr>"

text \<open>The same after the client has uploaded three bytes to the holding area.\<close>

definition world_held :: world where
  "world_held = holding_upload ''uploads/abc12345.webm'' [1, 2, 3] world_signed"

text \<open>The state after \<open>POST_upload_direct\<close> for the same request.\<close>

definition world_direct :: world where
  "world_direct = \<lparr> recordings = [''abc12345'' \<mapsto> demo_recording\<lparr> gcsPath := None \<rparr>],
     settings_doc = Some demo_settings, bucket = Map.empty, drive = [],
     writes = [Set_doc ''abc12345'' (demo_recording\<lparr> gcsPath := None \<rparr>)] \<rparr>"

text \<open>The state \<open>world_direct\<close> after the destination folder of the settings has been
  changed to another folder.\<close>

definition world_moved :: world where
  "world_moved = saveSettings (demo_settings\<lparr> s_driveFolderId := ''F2'' \<rparr>) world_direct"

text \<open>The state after the direct upload of one byte for the recording of
  \<open>world_direct\<close>.\<close>

definition world_ready :: world where
  "world_ready =
     \<lparr> recordings = [''abc12345'' \<mapsto> demo_recording\<lparr> gcsPath := None, status := Ready,
          driveFileId := ''drv1'', fileSize := 1, updatedAt := 201 \<rparr>],
       settings_doc = Some demo_settings, bucket = Map.empty,
       drive = [\<lparr> file_id = ''drv1'', file_name = ''Demo_abc12345.webm'',
                  mime_type = ''video/webm'', parent = ''F1'', content = [1],
                  anyone_reader = True \<rparr>],
       writes = [Set_doc ''abc12345'' (demo_recording\<lparr> gcsPath := None \<rparr>),
                 Update_doc ''abc12345'' (no_updates\<lparr> u_status := Some Uploading,
                                                      u_updatedAt := Some 200 \<rparr>),
                 Update_doc ''abc12345'' (no_updates\<lparr> u_driveFileId := Some ''drv1'',
                                                      u_status := Some Ready,
                                                      u_fileSize := Some 1,
                                                      u_updatedAt := Some 201 \<rparr>)] \<rparr>"

text \<open>A second recording, created with the same title.\<close>

definition demo_env2 :: env where
  "demo_env2 = demo_env\<lparr> uuid := ''def67890-2222-4222-8222-222222222222'' \<rparr>"

definition world_two :: world where
  "world_two = snd (POST_upload_direct demo_env2 (Some demo_request) world_signed)"




section \<open>Properties of the ledger operations\<close>

text \<open>The journal changes with the field \<open>writes\<close> only.\<close>

lemma journal_frame [simp]:
  "journal (recordings_update f w) = journal w"
  "journal (settings_doc_update g w) = journal w"
  "journal (bucket_update h w) = journal w"
  "journal (drive_update k w) = journal w"
  by (simp_all add: journal_def)

lemma journal_append [simp]:
  "journal (writes_update (\<lambda>_. writes v @ xs) w) = journal v @ concat (map status_written xs)"
  by (simp add: journal_def)

lemma journal_world [simp]:
  "journal \<lparr> recordings = r, settings_doc = s, bucket = b, drive = d, writes = xs \<rparr>
     = concat (map status_written xs)"
  by (simp add: journal_def)

lemma journal_same: "writes w' = writes w \<Longrightarrow> journal w' = journal w"
  by (simp add: journal_def)

lemma status_written_simps [simp]:
  "status_written (Set_doc i r) = [(i, status r)]"
  "status_written (Update_doc i u) = log_status i u"
  "status_written (Delete_doc i) = []"
  by (simp_all add: status_written_def)

lemma log_status_updatedAt [simp]:
  "log_status i (u\<lparr> u_updatedAt := x \<rparr>) = log_status i u"
  by (simp add: log_status_def)

lemma updateRecording_present:
  "recordings w i = Some d \<Longrightarrow>
   updateRecording now i u w =
     (Inr (), w\<lparr> recordings := (recordings w)(i \<mapsto> merge_fields (u\<lparr> u_updatedAt := Some now \<rparr>) d),
                 writes := writes w @ [Update_doc i (u\<lparr> u_updatedAt := Some now \<rparr>)] \<rparr>)"
proof -
  have "(case u_createdAt u of None \<Rightarrow> u\<lparr> u_updatedAt := Some now \<rparr>
         | Some c \<Rightarrow> u\<lparr> u_updatedAt := Some now, u_createdAt := Some c \<rparr>)
        = u\<lparr> u_updatedAt := Some now \<rparr>"
    by (cases "u_createdAt u") simp_all
  then show ?thesis if "recordings w i = Some d"
    using that by (simp add: updateRecording_def Let_def)
qed

lemma updateRecording_absent:
  "recordings w i = None \<Longrightarrow> updateRecording now i u w = (Inl (No_document i), w)"
  by (simp add: updateRecording_def)

lemma status_merge_set_status [simp]:
  "status (merge_fields ((set_status s)\<lparr> u_updatedAt := Some now \<rparr>) d) = s"
  by (simp add: merge_fields_def set_status_def no_updates_def)

lemma log_set_status [simp]: "log_status i (set_status s) = [(i, s)]"
  by (simp add: log_status_def set_status_def no_updates_def)

section \<open>The outcomes of the upload handlers\<close>

lemma and_then_Inl [simp]: "and_then (Inl e, w) f = (Inl e, w)"
  by (simp add: and_then_def)

lemma and_then_Inr [simp]: "and_then (Inr x, w) f = f x w"
  by (simp add: and_then_def)

lemma drive_files_create_frame:
  assumes "drive_files_create env buf n m f w = (r, w')"
  shows "recordings w' = recordings w" and "journal w' = journal w"
    and "settings_doc w' = settings_doc w" and "bucket w' = bucket w"
    and "writes w' = writes w"
  using assms
  by (auto simp: drive_files_create_def Let_def split: option.splits if_splits)

lemma drive_files_create_Inr:
  assumes "drive_files_create env buf n m f w = (Inr fid, w')"
  shows "drive_create env = Some fid"
    and "map parent (drive w') = map parent (drive w) @ [f]"
    and "map file_name (drive w') = map file_name (drive w) @ [n]"
    and "map content (drive w') = map content (drive w) @ [buf]"
  using assms
  by (auto simp: drive_files_create_def Let_def comp_def split: option.splits if_splits)

lemma drive_files_create_Inl:
  assumes "drive_files_create env buf n m f w = (Inl e, w')"
  shows "e = Drive_failure"
  using assms
  by (auto simp: drive_files_create_def Let_def split: option.splits if_splits)

lemma PUT_unknown:
  "recordings w i = None \<Longrightarrow>
   PUT env i buf w = (Response 404 (Error_message ''Recording not found''), w)"
  by (simp add: PUT_def PUT_try_def on_error_def getRecording_def)

lemma PUT_unconfigured:
  "recordings w i = Some d \<Longrightarrow>
   settings_doc w = None \<or> (\<exists>s. settings_doc w = Some s \<and> s_driveFolderId s = []) \<Longrightarrow>
   PUT env i buf w = (Response 400 (Error_message
      ''Google Drive folder not configured. Please go to Settings and add your Drive folder.''), w)"
  by (auto simp: PUT_def PUT_try_def on_error_def getRecording_def getSettings_def)

lemma PUT_main:
  assumes d: "recordings w i = Some d" and s: "settings_doc w = Some s"
    and f: "s_driveFolderId s \<noteq> []" and b: "buf \<noteq> []"
  shows "PUT env i buf w =
     (case drive_files_create env buf (fileName_of (title d) i) ''video/webm'' (s_driveFolderId s)
             (snd (updateRecording (clock env 0) i (set_status Uploading) w)) of
        (Inl e, w2) \<Rightarrow> (Response 500 (Error_thrown e),
                        snd (updateRecording (clock env 2) i (set_status Error) w2))
      | (Inr fid, w2) \<Rightarrow> (Response 200 (Upload_done fid),
                          snd (updateRecording (clock env 1) i
                                 (no_updates\<lparr> u_driveFileId := Some fid, u_status := Some Ready,
                                    u_fileSize := Some (int (length buf)) \<rparr>) w2)))"
proof -
  define w1 where "w1 = snd (updateRecording (clock env 0) i (set_status Uploading) w)"
  obtain r w2 where c: "drive_files_create env buf (fileName_of (title d) i) ''video/webm''
                          (s_driveFolderId s) w1 = (r, w2)"
    by (cases "drive_files_create env buf (fileName_of (title d) i) ''video/webm''
                          (s_driveFolderId s) w1") blast
  have "recordings w1 i \<noteq> None"
    using d by (simp add: w1_def updateRecording_present)
  then obtain d2 where d2: "recordings w2 i = Some d2"
    using drive_files_create_frame(1) [OF c] by auto
  have "PUT_try env i buf w =
          and_then (r, w2) (\<lambda>fileId w.
              and_then (updateRecording (clock env 1) i
                         (no_updates\<lparr> u_driveFileId := Some fileId, u_status := Some Ready,
                            u_fileSize := Some (int (length buf)) \<rparr>) w)
                (\<lambda>_ w. (Inr (Response 200 (Upload_done fileId)), w)))"
    using d s f b c
    by (simp add: PUT_try_def getRecording_def getSettings_def updateRecording_present
        uploadToDriveResumable_def w1_def)
  then show ?thesis
    using c d2 unfolding PUT_def w1_def [symmetric]
    by (cases r) (simp_all add: on_error_def updateRecording_present)
qed


text \<open>Every outcome of the direct upload.\<close>

lemma PUT_outcomes:
  obtains
    (unknown) "recordings w i = None"
      "PUT env i buf w = (Response 404 (Error_message ''Recording not found''), w)"
  | (unconfigured) d where "recordings w i = Some d"
      "PUT env i buf w = (Response 400 (Error_message
         ''Google Drive folder not configured. Please go to Settings and add your Drive folder.''), w)"
  | (empty) d s where "recordings w i = Some d" "settings_doc w = Some s" "s_driveFolderId s \<noteq> []"
      "buf = []"
      "PUT env i buf w = (Response 400 (Error_message ''Empty video file received''),
                          snd (updateRecording (clock env 1) i (set_status Error)
                                 (snd (updateRecording (clock env 0) i (set_status Uploading) w))))"
  | (failed) d s e w2 where "recordings w i = Some d" "settings_doc w = Some s"
      "s_driveFolderId s \<noteq> []" "buf \<noteq> []"
      "drive_files_create env buf (fileName_of (title d) i) ''video/webm'' (s_driveFolderId s)
         (snd (updateRecording (clock env 0) i (set_status Uploading) w)) = (Inl e, w2)"
      "PUT env i buf w = (Response 500 (Error_thrown e),
                          snd (updateRecording (clock env 2) i (set_status Error) w2))"
  | (stored) d s fid w2 where "recordings w i = Some d" "settings_doc w = Some s"
      "s_driveFolderId s \<noteq> []" "buf \<noteq> []"
      "drive_files_create env buf (fileName_of (title d) i) ''video/webm'' (s_driveFolderId s)
         (snd (updateRecording (clock env 0) i (set_status Uploading) w)) = (Inr fid, w2)"
      "PUT env i buf w = (Response 200 (Upload_done fid),
                          snd (updateRecording (clock env 1) i
                                 (no_updates\<lparr> u_driveFileId := Some fid, u_status := Some Ready,
                                    u_fileSize := Some (int (length buf)) \<rparr>) w2))"
proof (cases "recordings w i")
  case None
  then show ?thesis using unknown PUT_unknown by blast
next
  case (Some d)
  show ?thesis
  proof (cases "settings_doc w = None \<or> (\<exists>s. settings_doc w = Some s \<and> s_driveFolderId s = [])")
    case True
    then show ?thesis using unconfigured Some PUT_unconfigured by blast
  next
    case False
    then obtain s where s: "settings_doc w = Some s" "s_driveFolderId s \<noteq> []" by auto
    show ?thesis
    proof (cases "buf = []")
      case True
      have "PUT env i buf w = (Response 400 (Error_message ''Empty video file received''),
                          snd (updateRecording (clock env 1) i (set_status Error)
                                 (snd (updateRecording (clock env 0) i (set_status Uploading) w))))"
        using True Some s
        by (simp add: PUT_def PUT_try_def on_error_def getRecording_def getSettings_def
            updateRecording_present)
      then show ?thesis using empty Some s True by blast
    next
      case False
      obtain r w2 where c: "drive_files_create env buf (fileName_of (title d) i) ''video/webm''
          (s_driveFolderId s) (snd (updateRecording (clock env 0) i (set_status Uploading) w))
          = (r, w2)"
        by (cases "drive_files_create env buf (fileName_of (title d) i) ''video/webm''
          (s_driveFolderId s) (snd (updateRecording (clock env 0) i (set_status Uploading) w))")
          blast
      show ?thesis
      proof (cases r)
        case (Inl e)
        with c PUT_main [OF Some s False, of env] show ?thesis
          using failed [OF Some s False] by simp
      next
        case (Inr fid)
        with c PUT_main [OF Some s False, of env] show ?thesis
          using stored [OF Some s False] by simp
      qed
    qed
  qed
qed


lemma transferFromGcsToDrive_frame_all:
  assumes "transferFromGcsToDrive env p n f w = (r, w')"
  shows "recordings w' = recordings w \<and> journal w' = journal w
       \<and> settings_doc w' = settings_doc w \<and> writes w' = writes w"
proof (cases "if gcs_download_ok env then bucket w p else None")
  case None
  with assms show ?thesis by (auto simp: transferFromGcsToDrive_def)
next
  case (Some buf)
  obtain r1 w1 where c: "drive_files_create env buf n ''video/webm'' f w = (r1, w1)"
    by (cases "drive_files_create env buf n ''video/webm'' f w") blast
  with assms Some drive_files_create_frame [OF c] show ?thesis
    by (cases r1) (auto simp: transferFromGcsToDrive_def split: if_splits)
qed

lemma transferFromGcsToDrive_frame:
  assumes "transferFromGcsToDrive env p n f w = (r, w')"
  shows "recordings w' = recordings w" and "journal w' = journal w"
    and "settings_doc w' = settings_doc w" and "writes w' = writes w"
  using transferFromGcsToDrive_frame_all [OF assms] by simp_all

lemma transferFromGcsToDrive_Inr:
  assumes "transferFromGcsToDrive env p n f w = (Inr fid, w')"
  shows "drive_create env = Some fid"
    and "map parent (drive w') = map parent (drive w) @ [f]"
    and "map file_name (drive w') = map file_name (drive w) @ [n]"
    and "\<exists>buf. bucket w p = Some buf \<and> map content (drive w') = map content (drive w) @ [buf]"
    and "bucket w' = (if gcs_delete_ok env then (bucket w)(p := None) else bucket w)"
proof -
  from assms obtain buf where buf: "gcs_download_ok env" "bucket w p = Some buf"
    by (cases "gcs_download_ok env"; cases "bucket w p")
      (auto simp: transferFromGcsToDrive_def)
  obtain r1 w1 where c: "drive_files_create env buf n ''video/webm'' f w = (r1, w1)"
    by (cases "drive_files_create env buf n ''video/webm'' f w") blast
  with assms buf obtain r1: "r1 = Inr fid"
    and w': "w' = (if gcs_delete_ok env then w1\<lparr> bucket := (bucket w1)(p := None) \<rparr> else w1)"
    by (cases r1) (auto simp: transferFromGcsToDrive_def)
  note k = drive_files_create_Inr [OF c [unfolded r1]] drive_files_create_frame [OF c]
  show "drive_create env = Some fid" by (rule k)
  show "map parent (drive w') = map parent (drive w) @ [f]" using k by (simp add: w')
  show "map file_name (drive w') = map file_name (drive w) @ [n]" using k by (simp add: w')
  show "\<exists>buf. bucket w p = Some buf \<and> map content (drive w') = map content (drive w) @ [buf]"
    using k buf by (simp add: w')
  show "bucket w' = (if gcs_delete_ok env then (bucket w)(p := None) else bucket w)"
    using k by (simp add: w')
qed

lemma POST_transfer_unknown:
  "recordings w i = None \<Longrightarrow>
   POST_transfer env i w = (Response 404 (Error_message ''Recording not found''), w)"
  by (simp add: POST_transfer_def POST_transfer_try_def on_error_def getRecording_def)

lemma POST_transfer_no_path:
  "recordings w i = Some d \<Longrightarrow> gcsPath d = None \<or> gcsPath d = Some [] \<Longrightarrow>
   POST_transfer env i w =
     (Response 400 (Error_message ''No upload found for this recording''), w)"
  by (auto simp: POST_transfer_def POST_transfer_try_def on_error_def getRecording_def)

lemma POST_transfer_check_fails:
  "recordings w i = Some d \<Longrightarrow> gcsPath d = Some p \<Longrightarrow> p \<noteq> [] \<Longrightarrow> \<not> gcs_exists_ok env \<Longrightarrow>
   POST_transfer env i w =
     (Response 500 (Error_thrown Gcs_failure),
      snd (updateRecording (clock env 2) i (set_status Error) w))"
  by (simp add: POST_transfer_def POST_transfer_try_def on_error_def getRecording_def
      checkGcsFile_def)

lemma POST_transfer_missing:
  "recordings w i = Some d \<Longrightarrow> gcsPath d = Some p \<Longrightarrow> p \<noteq> [] \<Longrightarrow> gcs_exists_ok env \<Longrightarrow>
   bucket w p = None \<Longrightarrow>
   POST_transfer env i w =
     (Response 404 (Error_message ''Upload file not found. Please try recording again.''),
      snd (updateRecording (clock env 0) i (set_status Error) w))"
  by (simp add: POST_transfer_def POST_transfer_try_def on_error_def getRecording_def
      checkGcsFile_def updateRecording_present)

lemma POST_transfer_unconfigured:
  "recordings w i = Some d \<Longrightarrow> gcsPath d = Some p \<Longrightarrow> p \<noteq> [] \<Longrightarrow> gcs_exists_ok env \<Longrightarrow>
   bucket w p \<noteq> None \<Longrightarrow>
   settings_doc w = None \<or> (\<exists>s. settings_doc w = Some s \<and> s_driveFolderId s = []) \<Longrightarrow>
   POST_transfer env i w =
     (Response 400 (Error_message ''Google Drive folder not configured''), w)"
  by (auto simp: POST_transfer_def POST_transfer_try_def on_error_def getRecording_def
      checkGcsFile_def getSettings_def)

lemma POST_transfer_main:
  assumes d: "recordings w i = Some d" and p: "gcsPath d = Some p" "p \<noteq> []"
    and x: "gcs_exists_ok env" "bucket w p \<noteq> None"
    and s: "settings_doc w = Some s" "s_driveFolderId s \<noteq> []"
  shows "POST_transfer env i w =
     (case transferFromGcsToDrive env p (fileName_of (title d) i) (s_driveFolderId s)
             (snd (updateRecording (clock env 0) i (set_status Uploading) w)) of
        (Inl e, w2) \<Rightarrow> (Response 500 (Error_thrown e),
                        snd (updateRecording (clock env 2) i (set_status Error) w2))
      | (Inr fid, w2) \<Rightarrow> (Response 200 (Upload_done fid),
                          snd (updateRecording (clock env 1) i
                                 (no_updates\<lparr> u_driveFileId := Some fid, u_status := Some Ready,
                                    u_gcsPath := Some [] \<rparr>) w2)))"
proof -
  define w1 where "w1 = snd (updateRecording (clock env 0) i (set_status Uploading) w)"
  obtain r w2 where c: "transferFromGcsToDrive env p (fileName_of (title d) i)
                          (s_driveFolderId s) w1 = (r, w2)"
    by (cases "transferFromGcsToDrive env p (fileName_of (title d) i)
                          (s_driveFolderId s) w1") blast
  have "recordings w1 i \<noteq> None"
    using d by (simp add: w1_def updateRecording_present)
  then obtain d2 where d2: "recordings w2 i = Some d2"
    using transferFromGcsToDrive_frame(1) [OF c] by auto
  have "POST_transfer_try env i w =
          and_then (r, w2) (\<lambda>fileId w.
              and_then (updateRecording (clock env 1) i
                         (no_updates\<lparr> u_driveFileId := Some fileId, u_status := Some Ready,
                            u_gcsPath := Some [] \<rparr>) w)
                (\<lambda>_ w. (Inr (Response 200 (Upload_done fileId)), w)))"
    using d p x s c
    by (simp add: POST_transfer_try_def getRecording_def getSettings_def updateRecording_present
        checkGcsFile_def w1_def)
  then show ?thesis
    using c d2 unfolding POST_transfer_def w1_def [symmetric]
    by (cases r) (simp_all add: on_error_def updateRecording_present)
qed


lemma POST_transfer_outcomes:
  obtains
    (unknown) "recordings w i = None"
      "POST_transfer env i w = (Response 404 (Error_message ''Recording not found''), w)"
  | (no_path) d where "recordings w i = Some d" "gcsPath d = None \<or> gcsPath d = Some []"
      "POST_transfer env i w =
         (Response 400 (Error_message ''No upload found for this recording''), w)"
  | (check_fails) d where "recordings w i = Some d"
      "POST_transfer env i w = (Response 500 (Error_thrown Gcs_failure),
          snd (updateRecording (clock env 2) i (set_status Error) w))"
  | (missing) d where "recordings w i = Some d"
      "POST_transfer env i w =
         (Response 404 (Error_message ''Upload file not found. Please try recording again.''),
          snd (updateRecording (clock env 0) i (set_status Error) w))"
  | (unconfigured) d where "recordings w i = Some d"
      "POST_transfer env i w =
         (Response 400 (Error_message ''Google Drive folder not configured''), w)"
  | (failed) d p s e w2 where "recordings w i = Some d" "gcsPath d = Some p" "p \<noteq> []"
      "settings_doc w = Some s" "s_driveFolderId s \<noteq> []"
      "transferFromGcsToDrive env p (fileName_of (title d) i) (s_driveFolderId s)
         (snd (updateRecording (clock env 0) i (set_status Uploading) w)) = (Inl e, w2)"
      "POST_transfer env i w = (Response 500 (Error_thrown e),
          snd (updateRecording (clock env 2) i (set_status Error) w2))"
  | (stored) d p s fid w2 where "recordings w i = Some d" "gcsPath d = Some p" "p \<noteq> []"
      "settings_doc w = Some s" "s_driveFolderId s \<noteq> []"
      "transferFromGcsToDrive env p (fileName_of (title d) i) (s_driveFolderId s)
         (snd (updateRecording (clock env 0) i (set_status Uploading) w)) = (Inr fid, w2)"
      "POST_transfer env i w = (Response 200 (Upload_done fid),
          snd (updateRecording (clock env 1) i
                 (no_updates\<lparr> u_driveFileId := Some fid, u_status := Some Ready,
                    u_gcsPath := Some [] \<rparr>) w2))"
proof (cases "recordings w i")
  case None
  then show ?thesis using unknown POST_transfer_unknown by blast
next
  case (Some d)
  show ?thesis
  proof (cases "gcsPath d = None \<or> gcsPath d = Some []")
    case True
    then show ?thesis using no_path Some POST_transfer_no_path by blast
  next
    case False
    then obtain p where p: "gcsPath d = Some p" "p \<noteq> []" by auto
    show ?thesis
    proof (cases "gcs_exists_ok env")
      case False
      then show ?thesis using check_fails Some POST_transfer_check_fails [OF Some p] by blast
    next
      case True note x = this
      show ?thesis
      proof (cases "bucket w p = None")
        case True
        then show ?thesis using missing Some POST_transfer_missing [OF Some p x] by blast
      next
        case False note b = this
        show ?thesis
        proof (cases "settings_doc w = None
                      \<or> (\<exists>s. settings_doc w = Some s \<and> s_driveFolderId s = [])")
          case True
          then show ?thesis
            using unconfigured Some POST_transfer_unconfigured [OF Some p x b] by blast
        next
          case False
          then obtain s where s: "settings_doc w = Some s" "s_driveFolderId s \<noteq> []" by auto
          obtain r w2 where c: "transferFromGcsToDrive env p (fileName_of (title d) i)
              (s_driveFolderId s) (snd (updateRecording (clock env 0) i (set_status Uploading) w))
              = (r, w2)"
            by (cases "transferFromGcsToDrive env p (fileName_of (title d) i)
              (s_driveFolderId s) (snd (updateRecording (clock env 0) i (set_status Uploading) w))")
              blast
          show ?thesis
          proof (cases r)
            case (Inl e)
            with c POST_transfer_main [OF Some p x b s] show ?thesis
              using failed [OF Some p s] by simp
          next
            case (Inr fid)
            with c POST_transfer_main [OF Some p x b s] show ?thesis
              using stored [OF Some p s] by simp
          qed
        qed
      qed
    qed
  qed
qed

lemma snd_updateRecording_present:
  "recordings w i = Some d \<Longrightarrow>
   snd (updateRecording now i u w) =
     w\<lparr> recordings := (recordings w)(i \<mapsto> merge_fields (u\<lparr> u_updatedAt := Some now \<rparr>) d),
        writes := writes w @ [Update_doc i (u\<lparr> u_updatedAt := Some now \<rparr>)] \<rparr>"
  by (simp add: updateRecording_present)

lemma log_ready [simp]:
  "log_status i (no_updates\<lparr> u_driveFileId := Some fid, u_status := Some Ready, u_fileSize := Some n \<rparr>)
     = [(i, Ready)]"
  "log_status i (no_updates\<lparr> u_driveFileId := Some fid, u_status := Some Ready, u_gcsPath := Some p \<rparr>)
     = [(i, Ready)]"
  "log_status i (no_updates\<lparr> u_driveFileId := Some fid, u_status := Some Ready \<rparr>) = [(i, Ready)]"
  by (simp_all add: log_status_def no_updates_def)

text \<open>What a successful direct upload has done.\<close>

lemma PUT_success:
  assumes "PUT env i buf w = (Response 200 b, w')"
  obtains d s fid where "recordings w i = Some d" "settings_doc w = Some s"
    "s_driveFolderId s \<noteq> []" "buf \<noteq> []" "drive_create env = Some fid" "b = Upload_done fid"
    "recordings w' = (recordings w)(i \<mapsto>
        merge_fields (no_updates\<lparr> u_driveFileId := Some fid, u_status := Some Ready,
                        u_fileSize := Some (int (length buf)), u_updatedAt := Some (clock env 1) \<rparr>)
          (merge_fields ((set_status Uploading)\<lparr> u_updatedAt := Some (clock env 0) \<rparr>) d))"
    "journal w' = journal w @ [(i, Uploading), (i, Ready)]"
    "map parent (drive w') = map parent (drive w) @ [s_driveFolderId s]"
    "map file_name (drive w') = map file_name (drive w) @ [fileName_of (title d) i]"
    "map content (drive w') = map content (drive w) @ [buf]"
    "bucket w' = bucket w" "settings_doc w' = settings_doc w"
    "writes w' = writes w @
       [Update_doc i ((set_status Uploading)\<lparr> u_updatedAt := Some (clock env 0) \<rparr>),
        Update_doc i (no_updates\<lparr> u_driveFileId := Some fid, u_status := Some Ready,
                        u_fileSize := Some (int (length buf)),
                        u_updatedAt := Some (clock env 1) \<rparr>)]"
proof (cases rule: PUT_outcomes [of w i env buf])
  case (stored d s fid w2)
  let ?w1 = "snd (updateRecording (clock env 0) i (set_status Uploading) w)"
  note fr = drive_files_create_frame [OF stored(5)] and ok = drive_files_create_Inr [OF stored(5)]
  have w1: "?w1 = w\<lparr> recordings := (recordings w)(i \<mapsto>
                merge_fields ((set_status Uploading)\<lparr> u_updatedAt := Some (clock env 0) \<rparr>) d),
              writes := writes w @ [Update_doc i
                ((set_status Uploading)\<lparr> u_updatedAt := Some (clock env 0) \<rparr>)] \<rparr>"
    using stored(1) by (simp add: snd_updateRecording_present)
  have d2: "recordings w2 i =
      Some (merge_fields ((set_status Uploading)\<lparr> u_updatedAt := Some (clock env 0) \<rparr>) d)"
    using fr(1) by (simp add: w1)
  have w': "w' = snd (updateRecording (clock env 1) i
                 (no_updates\<lparr> u_driveFileId := Some fid, u_status := Some Ready,
                    u_fileSize := Some (int (length buf)) \<rparr>) w2)" and b: "b = Upload_done fid"
    using assms stored(6) by simp_all
  show ?thesis
  proof (rule that [OF stored(1-4) ok(1) b])
    show "recordings w' = (recordings w)(i \<mapsto>
        merge_fields (no_updates\<lparr> u_driveFileId := Some fid, u_status := Some Ready,
                        u_fileSize := Some (int (length buf)), u_updatedAt := Some (clock env 1) \<rparr>)
          (merge_fields ((set_status Uploading)\<lparr> u_updatedAt := Some (clock env 0) \<rparr>) d))"
      using fr(1) by (simp add: w' snd_updateRecording_present [OF d2] w1)
    show "journal w' = journal w @ [(i, Uploading), (i, Ready)]"
      using fr(2) by (simp add: w' snd_updateRecording_present [OF d2] w1)
    show "map parent (drive w') = map parent (drive w) @ [s_driveFolderId s]"
      using ok(2) by (simp add: w' snd_updateRecording_present [OF d2] w1)
    show "map file_name (drive w') = map file_name (drive w) @ [fileName_of (title d) i]"
      using ok(3) by (simp add: w' snd_updateRecording_present [OF d2] w1)
    show "map content (drive w') = map content (drive w) @ [buf]"
      using ok(4) by (simp add: w' snd_updateRecording_present [OF d2] w1)
    show "bucket w' = bucket w"
      using fr(4) by (simp add: w' snd_updateRecording_present [OF d2] w1)
    show "settings_doc w' = settings_doc w"
      using fr(3) by (simp add: w' snd_updateRecording_present [OF d2] w1)
    show "writes w' = writes w @
       [Update_doc i ((set_status Uploading)\<lparr> u_updatedAt := Some (clock env 0) \<rparr>),
        Update_doc i (no_updates\<lparr> u_driveFileId := Some fid, u_status := Some Ready,
                        u_fileSize := Some (int (length buf)),
                        u_updatedAt := Some (clock env 1) \<rparr>)]"
      using fr(5) by (simp add: w' snd_updateRecording_present [OF d2] w1)
  qed
qed (use assms in simp_all)


text \<open>What a successful transfer has done.\<close>

lemma POST_transfer_success:
  assumes "POST_transfer env i w = (Response 200 b, w')"
  obtains d p s fid buf where "recordings w i = Some d" "gcsPath d = Some p" "p \<noteq> []"
    "settings_doc w = Some s" "s_driveFolderId s \<noteq> []" "drive_create env = Some fid"
    "b = Upload_done fid" "bucket w p = Some buf"
    "recordings w' = (recordings w)(i \<mapsto>
        merge_fields (no_updates\<lparr> u_driveFileId := Some fid, u_status := Some Ready,
                        u_gcsPath := Some [], u_updatedAt := Some (clock env 1) \<rparr>)
          (merge_fields ((set_status Uploading)\<lparr> u_updatedAt := Some (clock env 0) \<rparr>) d))"
    "journal w' = journal w @ [(i, Uploading), (i, Ready)]"
    "map parent (drive w') = map parent (drive w) @ [s_driveFolderId s]"
    "map file_name (drive w') = map file_name (drive w) @ [fileName_of (title d) i]"
    "map content (drive w') = map content (drive w) @ [buf]"
    "bucket w' = (if gcs_delete_ok env then (bucket w)(p := None) else bucket w)"
    "settings_doc w' = settings_doc w"
    "writes w' = writes w @
       [Update_doc i ((set_status Uploading)\<lparr> u_updatedAt := Some (clock env 0) \<rparr>),
        Update_doc i (no_updates\<lparr> u_driveFileId := Some fid, u_status := Some Ready,
                        u_gcsPath := Some [], u_updatedAt := Some (clock env 1) \<rparr>)]"
proof (cases rule: POST_transfer_outcomes [of w i env])
  case (stored d p s fid w2)
  let ?w1 = "snd (updateRecording (clock env 0) i (set_status Uploading) w)"
  note fr = transferFromGcsToDrive_frame [OF stored(6)]
    and ok = transferFromGcsToDrive_Inr [OF stored(6)]
  have w1: "?w1 = w\<lparr> recordings := (recordings w)(i \<mapsto>
                merge_fields ((set_status Uploading)\<lparr> u_updatedAt := Some (clock env 0) \<rparr>) d),
              writes := writes w @ [Update_doc i
                ((set_status Uploading)\<lparr> u_updatedAt := Some (clock env 0) \<rparr>)] \<rparr>"
    using stored(1) by (simp add: snd_updateRecording_present)
  have d2: "recordings w2 i =
      Some (merge_fields ((set_status Uploading)\<lparr> u_updatedAt := Some (clock env 0) \<rparr>) d)"
    using fr(1) by (simp add: w1)
  have w': "w' = snd (updateRecording (clock env 1) i
                 (no_updates\<lparr> u_driveFileId := Some fid, u_status := Some Ready,
                    u_gcsPath := Some [] \<rparr>) w2)" and b: "b = Upload_done fid"
    using assms stored(7) by simp_all
  from ok(4) obtain buf where buf: "bucket w p = Some buf"
    and content: "map content (drive w2) = map content (drive ?w1) @ [buf]"
    by (auto simp: w1)
  show ?thesis
  proof (rule that [OF stored(1-5) ok(1) b buf])
    show "recordings w' = (recordings w)(i \<mapsto>
        merge_fields (no_updates\<lparr> u_driveFileId := Some fid, u_status := Some Ready,
                        u_gcsPath := Some [], u_updatedAt := Some (clock env 1) \<rparr>)
          (merge_fields ((set_status Uploading)\<lparr> u_updatedAt := Some (clock env 0) \<rparr>) d))"
      using fr(1) by (simp add: w' snd_updateRecording_present [OF d2] w1)
    show "journal w' = journal w @ [(i, Uploading), (i, Ready)]"
      using fr(2) by (simp add: w' snd_updateRecording_present [OF d2] w1)
    show "map parent (drive w') = map parent (drive w) @ [s_driveFolderId s]"
      using ok(2) by (simp add: w' snd_updateRecording_present [OF d2] w1)
    show "map file_name (drive w') = map file_name (drive w) @ [fileName_of (title d) i]"
      using ok(3) by (simp add: w' snd_updateRecording_present [OF d2] w1)
    show "map content (drive w') = map content (drive w) @ [buf]"
      using content by (simp add: w' snd_updateRecording_present [OF d2] w1)
    show "bucket w' = (if gcs_delete_ok env then (bucket w)(p := None) else bucket w)"
      using ok(5) by (simp add: w' snd_updateRecording_present [OF d2] w1)
    show "settings_doc w' = settings_doc w"
      using fr(3) by (simp add: w' snd_updateRecording_present [OF d2] w1)
    show "writes w' = writes w @
       [Update_doc i ((set_status Uploading)\<lparr> u_updatedAt := Some (clock env 0) \<rparr>),
        Update_doc i (no_updates\<lparr> u_driveFileId := Some fid, u_status := Some Ready,
                        u_gcsPath := Some [], u_updatedAt := Some (clock env 1) \<rparr>)]"
      using fr(4) by (simp add: w' snd_updateRecording_present [OF d2] w1)
  qed
qed (use assms in simp_all)

section \<open>How a request changes the ledger\<close>

lemma allowed_update_simps [simp]:
  "allowed_update (set_status s) = (s \<noteq> Ready)"
  "allowed_update (no_updates\<lparr> u_driveFileId := Some fid, u_status := Some Ready,
                     u_fileSize := Some n \<rparr>) = (fid \<noteq> [])"
  "allowed_update (no_updates\<lparr> u_driveFileId := Some fid, u_status := Some Ready,
                     u_gcsPath := Some p \<rparr>) = (fid \<noteq> [])"
  "allowed_update (no_updates\<lparr> u_driveFileId := Some fid, u_status := Some Ready \<rparr>) = (fid \<noteq> [])"
  "allowed_update no_updates"
  "allowed_update (no_updates\<lparr> u_title := Some t \<rparr>)"
  by (simp_all add: allowed_update_def set_status_def no_updates_def)

lemma evolves_trans: "evolves w1 w2 \<Longrightarrow> evolves w w1 \<Longrightarrow> evolves w w2"
  by (induction rule: evolves.induct) (auto intro: evolves.intros)

lemma evolves_drive_files_create:
  "evolves w w1 \<Longrightarrow> drive_files_create env buf n m f w1 = (r, w2) \<Longrightarrow> evolves w w2"
  by (auto intro: evolves.frame dest: drive_files_create_frame)

lemma evolves_transferFromGcsToDrive:
  "evolves w w1 \<Longrightarrow> transferFromGcsToDrive env p n f w1 = (r, w2) \<Longrightarrow> evolves w w2"
  by (auto intro: evolves.frame dest: transferFromGcsToDrive_frame)

lemma evolves_PUT:
  assumes "drive_create env \<noteq> Some []"
  shows "evolves w (snd (PUT env i buf w))"
proof (cases rule: PUT_outcomes [of w i env buf])
  case unknown
  then show ?thesis by (simp add: evolves.stay)
next
  case (unconfigured d)
  then show ?thesis by (simp add: evolves.stay)
next
  case (empty d s)
  then show ?thesis by (simp add: evolves.intros)
next
  case (failed d s e w2)
  have "evolves w w2"
    by (rule evolves_drive_files_create [OF _ failed(5)]) (simp add: evolves.intros)
  with failed(6) show ?thesis by (simp add: evolves.intros)
next
  case (stored d s fid w2)
  have "evolves w w2"
    by (rule evolves_drive_files_create [OF _ stored(5)]) (simp add: evolves.intros)
  moreover have "fid \<noteq> []"
    using drive_files_create_Inr(1) [OF stored(5)] assms by auto
  ultimately show ?thesis using stored(6) by (simp add: evolves.intros)
qed

lemma evolves_POST_transfer:
  assumes "drive_create env \<noteq> Some []"
  shows "evolves w (snd (POST_transfer env i w))"
proof (cases rule: POST_transfer_outcomes [of w i env])
  case unknown
  then show ?thesis by (simp add: evolves.stay)
next
  case (no_path d)
  then show ?thesis by (simp add: evolves.stay)
next
  case (check_fails d)
  then show ?thesis by (simp add: evolves.intros)
next
  case (missing d)
  then show ?thesis by (simp add: evolves.intros)
next
  case (unconfigured d)
  then show ?thesis by (simp add: evolves.stay)
next
  case (failed d p s e w2)
  have "evolves w w2"
    by (rule evolves_transferFromGcsToDrive [OF _ failed(6)]) (simp add: evolves.intros)
  with failed(7) show ?thesis by (simp add: evolves.intros)
next
  case (stored d p s fid w2)
  have "evolves w w2"
    by (rule evolves_transferFromGcsToDrive [OF _ stored(6)]) (simp add: evolves.intros)
  moreover have "fid \<noteq> []"
    using transferFromGcsToDrive_Inr(1) [OF stored(6)] assms by auto
  ultimately show ?thesis using stored(7) by (simp add: evolves.intros)
qed



text \<open>The upload handlers without an outcome rule of their own are sequences of the
  same calls.\<close>

lemma evolves_and_then:
  assumes "evolves w (snd m)" and "\<And>x. fst m = Inr x \<Longrightarrow> evolves w (snd (f x (snd m)))"
  shows "evolves w (snd (and_then m f))"
  using assms by (cases m; cases "fst m") (auto simp: and_then_def)

lemma evolves_upload:
  assumes "evolves w w1"
  shows "evolves w (snd (uploadToDriveResumable env buf n m f w1))"
  using assms
  by (cases "drive_files_create env buf n m f w1")
    (auto simp: uploadToDriveResumable_def intro: evolves_drive_files_create)

lemma upload_file_id:
  assumes "fst (uploadToDriveResumable env buf n m f w1) = Inr fid"
  shows "drive_create env = Some fid"
  using assms
  by (cases "drive_files_create env buf n m f w1")
    (auto simp: uploadToDriveResumable_def dest: drive_files_create_Inr(1))

lemma evolves_upload_chain:
  assumes "drive_create env \<noteq> Some []" and "\<And>fid. fid \<noteq> [] \<Longrightarrow> allowed_update (u fid)"
    and "\<And>fid x w1. snd (k fid x w1) = w1"
  shows "evolves w (snd (and_then (updateRecording t0 i (set_status Uploading) w)
            (\<lambda>_ w. and_then (uploadToDriveResumable env buf n m f w)
               (\<lambda>fileId w. and_then (updateRecording t1 i (u fileId) w) (k fileId)))))"
proof (rule evolves_and_then)
  let ?w1 = "snd (updateRecording t0 i (set_status Uploading) w)"
  show w1: "evolves w ?w1" by (simp add: evolves.intros)
  fix x
  show "evolves w (snd (and_then (uploadToDriveResumable env buf n m f ?w1)
               (\<lambda>fileId w. and_then (updateRecording t1 i (u fileId) w) (k fileId))))"
  proof (rule evolves_and_then)
    let ?w2 = "snd (uploadToDriveResumable env buf n m f ?w1)"
    show w2: "evolves w ?w2" using w1 by (rule evolves_upload)
    fix fid assume "fst (uploadToDriveResumable env buf n m f ?w1) = Inr fid"
    then have "fid \<noteq> []" using upload_file_id assms(1) by fastforce
    then have e: "evolves w (snd (updateRecording t1 i (u fid) ?w2))"
      using w2 assms(2) by (simp add: evolves.update)
    show "evolves w (snd (and_then (updateRecording t1 i (u fid) ?w2) (k fid)))"
      by (rule evolves_and_then [OF e]) (simp add: assms(3) e)
  qed
qed

lemma evolves_PUT_earlier:
  assumes "drive_create env \<noteq> Some []"
  shows "evolves w (snd (PUT_earlier env i buf w))"
proof -
  have "evolves w (snd (PUT_earlier_try env i buf w))"
    unfolding PUT_earlier_try_def Let_def
    by (cases "recordings w i"; cases "settings_doc w")
      (simp_all add: getRecording_def getSettings_def evolves.stay
        evolves_upload_chain [OF assms])
  then show ?thesis
    by (cases "PUT_earlier_try env i buf w"; cases "fst (PUT_earlier_try env i buf w)")
      (simp_all add: PUT_earlier_def evolves.update)
qed

lemma evolves_PUT_legacy:
  assumes "drive_create env \<noteq> Some []"
  shows "evolves w (snd (PUT_legacy env r buf w))"
proof -
  have "evolves w (snd (PUT_legacy_try env r buf w))"
    unfolding PUT_legacy_try_def Let_def
    by (cases r; cases "settings_doc w")
      (simp_all add: getSettings_def evolves.stay evolves_upload_chain [OF assms])
  then show ?thesis
    by (cases "PUT_legacy_try env r buf w"; cases "fst (PUT_legacy_try env r buf w)")
      (simp_all add: PUT_legacy_def)
qed

lemma evolves_uploadInBackground:
  assumes "drive_create env \<noteq> Some []"
  shows "evolves w (snd (uploadInBackground env j w))"
proof -
  have "uploadInBackground_try env j w =
      and_then (updateRecording (clock env 1) (job_recordingId j) (set_status Uploading) w)
       (\<lambda>_ w. and_then (uploadToDriveResumable env (job_file j)
                          (fileName_of (job_title j) (job_recordingId j)) ''video/webm''
                          (job_folderId j) w)
          (\<lambda>fileId w. and_then (updateRecording (clock env 2) (job_recordingId j)
                     (no_updates\<lparr> u_driveFileId := Some fileId, u_status := Some Ready \<rparr>) w)
                     (\<lambda>x w. (Inr x, w))))"
    unfolding uploadInBackground_try_def Let_def and_then_def
    by (simp split: prod.splits sum.splits)
  then have "evolves w (snd (uploadInBackground_try env j w))"
    by (simp add: evolves_upload_chain [OF assms])
  then show ?thesis
    by (cases "uploadInBackground_try env j w"; cases "fst (uploadInBackground_try env j w)")
      (simp_all add: uploadInBackground_def evolves.update)
qed


lemma status_new_recording [simp]: "status (new_recording i body s p) = Processing"
  by (simp add: new_recording_def)

lemma rec_id_new_recording [simp]: "rec_id (new_recording i body s p) = i"
  by (simp add: new_recording_def)

lemma evolves_createRecording:
  "status r = Processing \<Longrightarrow> length (rec_id r) = 8 \<Longrightarrow>
   evolves w (snd (createRecording now r w))"
  by (rule evolves.create [OF evolves.stay])

lemma evolves_POST_upload:
  assumes "length (uuid env) = 36"
  shows "evolves w (snd (POST_upload env req w))"
  using assms
  by (auto simp: POST_upload_def Let_def case_prod_unfold evolves.stay split: option.splits
      intro!: evolves_createRecording)

lemma evolves_POST_upload_direct:
  assumes "length (uuid env) = 36"
  shows "evolves w (snd (POST_upload_direct env req w))"
  using assms
  by (auto simp: POST_upload_direct_def Let_def case_prod_unfold evolves.stay
      split: option.splits intro!: evolves_createRecording)

lemma evolves_POST_recordings:
  assumes "length (uuid env) = 36"
  shows "evolves w (snd (POST_recordings env file t d w))"
  using assms
  by (auto simp: POST_recordings_def Let_def case_prod_unfold evolves.stay
      split: option.splits intro!: evolves_createRecording)

lemma evolves_incrementViewCount:
  "evolves w (snd (incrementViewCount key now i w))"
  by (cases "key i") (simp_all add: incrementViewCount_def evolves.stay evolves.view)

lemma evolves_GET_recording: "evolves w (snd (GET_recording env i view w))"
proof -
  have "snd (GET_recording env i view w) = w
        \<or> snd (GET_recording env i view w)
            = snd (incrementViewCount (doc_key env) (clock env 0) i w)"
    by (simp add: GET_recording_def split: option.splits prod.splits sum.splits)
  then show ?thesis by (auto intro: evolves.stay evolves_incrementViewCount)
qed

lemma evolves_VideoPage: "evolves w (snd (VideoPage env i w))"
proof -
  have "snd (VideoPage env i w) = w
        \<or> snd (VideoPage env i w) = snd (incrementViewCount (doc_key env) (clock env 0) i w)"
    by (simp add: VideoPage_def and_then_def split: option.splits prod.splits sum.splits)
  then show ?thesis by (auto intro: evolves.stay evolves_incrementViewCount)
qed

lemma evolves_PATCH: "evolves w (snd (PATCH_recording env i t w))"
proof -
  have "snd (PATCH_recording env i t w) = w
        \<or> snd (PATCH_recording env i t w) = snd (updateRecording (clock env 0) i no_updates w)
        \<or> snd (PATCH_recording env i t w)
            = snd (updateRecording (clock env 0) i (no_updates\<lparr> u_title := Some (the t) \<rparr>) w)"
    by (cases t)
      (simp_all add: PATCH_recording_def Let_def split: option.splits prod.splits sum.splits)
  then show ?thesis by (auto simp: evolves.stay intro!: evolves.update)
qed

lemma evolves_DELETE: "evolves w (snd (DELETE_recording env i w))"
proof (cases "getRecording i w")
  case None
  then show ?thesis by (simp add: DELETE_recording_def evolves.stay)
next
  case (Some r)
  let ?w1 = "if driveFileId r \<noteq> [] then snd (deleteFromDrive env (driveFileId r) w) else w"
  have "evolves w ?w1"
    by (rule evolves.frame [OF evolves.stay]) (simp_all add: deleteFromDrive_def)
  then have "evolves w (snd (deleteRecording i ?w1))" by (rule evolves.delete)
  then show ?thesis using Some by (simp add: DELETE_recording_def Let_def deleteRecording_def)
qed

text \<open>Every reachable state has come out of the empty ledger in this way.\<close>

lemma reachable_evolves: "reachable w \<Longrightarrow> evolves initial_world w"
proof (induction rule: reachable.induct)
  case start
  show ?case by (rule evolves.stay)
next
  case (save_settings w s)
  from save_settings.IH show ?case by (rule evolves.frame) (simp_all add: saveSettings_def)
next
  case (client_upload w path bytes)
  from client_upload.IH show ?case by (rule evolves.frame) (simp_all add: holding_upload_def)
next
  case (create_signed w env req)
  from evolves_trans [OF evolves_POST_upload [OF create_signed.hyps(2)] create_signed.IH] show ?case .
next
  case (create_direct w env req)
  from evolves_trans [OF evolves_POST_upload_direct [OF create_direct.hyps(2)] create_direct.IH] show ?case .
next
  case (direct_upload w env i buffer)
  from evolves_trans [OF evolves_PUT [OF direct_upload.hyps(2)] direct_upload.IH] show ?case .
next
  case (transfer w env i)
  from evolves_trans [OF evolves_POST_transfer [OF transfer.hyps(2)] transfer.IH] show ?case .
next
  case (read_recording w env i view)
  from evolves_trans [OF evolves_GET_recording read_recording.IH] show ?case .
next
  case (rename w env i t)
  from evolves_trans [OF evolves_PATCH rename.IH] show ?case .
next
  case (delete w env i)
  from evolves_trans [OF evolves_DELETE delete.IH] show ?case .
next
  case (share_page w env i)
  from evolves_trans [OF evolves_VideoPage share_page.IH] show ?case .
next
  case (create_upload w env f t d)
  from evolves_trans [OF evolves_POST_recordings [OF create_upload.hyps(2)] create_upload.IH] show ?case .
next
  case (background_upload w env j)
  from evolves_trans [OF evolves_uploadInBackground [OF background_upload.hyps(2)] background_upload.IH] show ?case .
next
  case (legacy_upload w env recordingId buffer)
  from evolves_trans [OF evolves_PUT_legacy [OF legacy_upload.hyps(2)] legacy_upload.IH] show ?case .
next
  case (earlier_upload w env i buffer)
  from evolves_trans [OF evolves_PUT_earlier [OF earlier_upload.hyps(2)] earlier_upload.IH] show ?case .
qed


section \<open>What holds in every reachable state\<close>

lemma snd_updateRecording_effect:
  assumes "recordings w i = Some d"
  shows "\<exists>d'. recordings (snd (updateRecording now i u w)) = (recordings w)(i \<mapsto> d')
            \<and> status d' = (case u_status u of None \<Rightarrow> status d | Some s \<Rightarrow> s)
            \<and> driveFileId d' = (case u_driveFileId u of None \<Rightarrow> driveFileId d | Some f \<Rightarrow> f)"
  using assms
  by (intro exI [of _ "merge_fields (u\<lparr> u_updatedAt := Some now \<rparr>) d"])
    (simp add: snd_updateRecording_present merge_fields_def)

lemma transaction_write_view:
  obtains (nothing) "transaction_write k (view_update now doc) w = w"
  | (counted) d u where "recordings w k = Some d"
      "transaction_write k (view_update now doc) w
         = w\<lparr> recordings := (recordings w)(k \<mapsto> merge_fields u d),
              writes := writes w @ [Update_doc k u] \<rparr>"
      "u_status u = None" "u_driveFileId u = None"
proof (cases "view_update now doc")
  case None
  then have "transaction_write k (view_update now doc) w = w"
    by (simp add: transaction_write_def)
  then show ?thesis by (rule nothing)
next
  case (Some u)
  then have u: "u_status u = None" "u_driveFileId u = None"
    by (auto simp: view_update_def no_updates_def Let_def split: option.splits)
  show ?thesis
  proof (cases "recordings w k")
    case None
    with Some have "transaction_write k (view_update now doc) w = w"
      by (simp add: transaction_write_def)
    then show ?thesis by (rule nothing)
  next
    case d: (Some d)
    with Some have "transaction_write k (view_update now doc) w
         = w\<lparr> recordings := (recordings w)(k \<mapsto> merge_fields u d),
              writes := writes w @ [Update_doc k u] \<rparr>"
      by (simp add: transaction_write_def)
    with d show ?thesis using u by (rule counted)
  qed
qed

lemma merge_fields_keeps [simp]:
  "u_status u = None \<Longrightarrow> status (merge_fields u d) = status d"
  "u_driveFileId u = None \<Longrightarrow> driveFileId (merge_fields u d) = driveFileId d"
  by (simp_all add: merge_fields_def)

lemma ready_has_ref_evolves: "evolves w w' \<Longrightarrow> ready_has_ref w \<Longrightarrow> ready_has_ref w'"
proof (induction rule: evolves.induct)
  case (stay w)
  then show ?case .
next
  case (frame w w1 w2)
  then show ?case by (simp add: ready_has_ref_def)
next
  case (update w w1 u now i)
  then have inv: "ready_has_ref w1" by simp
  show ?case
  proof (cases "recordings w1 i")
    case None
    with inv show ?thesis by (simp add: updateRecording_absent)
  next
    case (Some d)
    from snd_updateRecording_effect [OF Some, of now u] obtain d'
      where d': "recordings (snd (updateRecording now i u w1)) = (recordings w1)(i \<mapsto> d')"
        "status d' = (case u_status u of None \<Rightarrow> status d | Some s \<Rightarrow> s)"
        "driveFileId d' = (case u_driveFileId u of None \<Rightarrow> driveFileId d | Some f \<Rightarrow> f)"
      by blast
    have "status d' = Ready \<Longrightarrow> driveFileId d' \<noteq> []"
      using d'(2,3) update.hyps(2) inv Some
      by (auto simp: allowed_update_def ready_has_ref_def split: option.splits)
    with inv d'(1) show ?thesis by (auto simp: ready_has_ref_def)
  qed
next
  case (create w w1 r now)
  then show ?case by (auto simp: createRecording_def ready_has_ref_def Let_def)
next
  case (delete w w1 i)
  then show ?case by (auto simp: deleteRecording_def ready_has_ref_def split: if_splits)
next
  case (view w w1 k now doc)
  then have inv: "ready_has_ref w1" by simp
  show ?case
  proof (cases rule: transaction_write_view [of k now doc w1])
    case nothing
    with inv show ?thesis by simp
  next
    case (counted d u)
    with inv show ?thesis by (auto simp: ready_has_ref_def)
  qed
qed

lemma reachable_ready_has_ref: "reachable w \<Longrightarrow> ready_has_ref w"
  by (rule ready_has_ref_evolves [OF reachable_evolves])
    (simp_all add: ready_has_ref_def initial_world_def)

lemma short_ids_evolves: "evolves w w' \<Longrightarrow> short_ids w \<Longrightarrow> short_ids w'"
proof (induction rule: evolves.induct)
  case (stay w)
  then show ?case .
next
  case (frame w w1 w2)
  then show ?case by (simp add: short_ids_def)
next
  case (update w w1 u now i)
  then show ?case
    by (cases "recordings w1 i")
      (auto simp: updateRecording_absent snd_updateRecording_present short_ids_def)
next
  case (create w w1 r now)
  then show ?case by (auto simp: createRecording_def short_ids_def Let_def)
next
  case (delete w w1 i)
  then show ?case by (auto simp: deleteRecording_def short_ids_def split: if_splits)
next
  case (view w w1 k now doc)
  then have inv: "short_ids w1" by simp
  show ?case
  proof (cases rule: transaction_write_view [of k now doc w1])
    case nothing
    with inv show ?thesis by simp
  next
    case (counted d u)
    with inv show ?thesis by (auto simp: short_ids_def)
  qed
qed

lemma reachable_short_ids: "reachable w \<Longrightarrow> short_ids w"
  by (rule short_ids_evolves [OF reachable_evolves])
    (simp_all add: short_ids_def initial_world_def)

lemma statuses_of_append [simp]:
  "statuses_of i (js @ ks) = statuses_of i js @ statuses_of i ks"
  by (simp add: statuses_of_def)

lemma statuses_of_single [simp]:
  "statuses_of i [(j, s)] = (if j = i then [s] else [])"
  by (simp add: statuses_of_def)

lemma statuses_of_Nil [simp]: "statuses_of i [] = []"
  by (simp add: statuses_of_def)

lemma history_evolves: "evolves w w' \<Longrightarrow> journal_is_history w \<Longrightarrow> journal_is_history w'"
proof (induction rule: evolves.induct)
  case (stay w)
  then show ?case .
next
  case (frame w w1 w2)
  then show ?case by (simp add: journal_is_history_def journal_def)
next
  case (update w w1 u now i)
  then have inv: "journal_is_history w1" by simp
  show ?case
  proof (cases "recordings w1 i")
    case None
    with inv show ?thesis by (simp add: updateRecording_absent)
  next
    case (Some d)
    with inv show ?thesis
      by (cases "u_status u")
        (auto simp: snd_updateRecording_present journal_is_history_def log_status_def
          merge_fields_def)
  qed
next
  case (create w w1 r now)
  then show ?case by (auto simp: createRecording_def journal_is_history_def Let_def)
next
  case (delete w w1 i)
  then show ?case by (auto simp: deleteRecording_def journal_is_history_def split: if_splits)
next
  case (view w w1 k now doc)
  then have inv: "journal_is_history w1" by simp
  show ?case
  proof (cases rule: transaction_write_view [of k now doc w1])
    case nothing
    with inv show ?thesis by simp
  next
    case (counted d u)
    with inv show ?thesis by (auto simp: journal_is_history_def log_status_def)
  qed
qed

lemma reachable_history: "reachable w \<Longrightarrow> journal_is_history w"
  by (rule history_evolves [OF reachable_evolves])
    (simp_all add: journal_is_history_def initial_world_def)

text \<open>No write sets the status \<open>Ready\<close> without a file reference.\<close>

lemma ready_write_ok_simps [simp]:
  "ready_write_ok (Set_doc i r) = (status r = Ready \<longrightarrow> driveFileId r \<noteq> [])"
  "ready_write_ok (Update_doc i u) =
     (u_status u = Some Ready \<longrightarrow> (\<exists>f. u_driveFileId u = Some f \<and> f \<noteq> []))"
  "ready_write_ok (Delete_doc i)"
  by (auto simp: ready_write_ok_def sets_ready_def file_ref_written_def log_status_def
      split: option.splits)

lemma ready_writes_evolves:
  "evolves w w' \<Longrightarrow> list_all ready_write_ok (writes w) \<Longrightarrow> list_all ready_write_ok (writes w')"
proof (induction rule: evolves.induct)
  case (stay w)
  then show ?case .
next
  case (frame w w1 w2)
  then show ?case by simp
next
  case (update w w1 u now i)
  then show ?case
    by (cases "recordings w1 i")
      (auto simp: updateRecording_absent snd_updateRecording_present allowed_update_def
        split: option.splits)
next
  case (create w w1 r now)
  then show ?case by (auto simp: createRecording_def Let_def)
next
  case (delete w w1 i)
  then show ?case by (auto simp: deleteRecording_def)
next
  case (view w w1 k now doc)
  then have inv: "list_all ready_write_ok (writes w1)" by simp
  show ?case
  proof (cases rule: transaction_write_view [of k now doc w1])
    case nothing
    with inv show ?thesis by simp
  next
    case (counted d u)
    with inv show ?thesis by simp
  qed
qed

lemma reachable_ready_writes: "reachable w \<Longrightarrow> list_all ready_write_ok (writes w)"
  by (rule ready_writes_evolves [OF reachable_evolves]) (simp_all add: initial_world_def)

section \<open>Concrete runs\<close>

lemma world_signed_created:
  "POST_upload demo_env (Some demo_request) (saveSettings demo_settings initial_world)
     = (Response 200 (Created demo_recording ''/v/abc12345''), world_signed)"
  by (simp add: POST_upload_def getSettings_def saveSettings_def initial_world_def
      demo_settings_def demo_env_def createRecording_def new_recording_def demo_request_def
      holding_path_def demo_recording_def world_signed_def or_zero_def Let_def)

lemma world_direct_created:
  "POST_upload_direct demo_env (Some demo_request) (saveSettings demo_settings initial_world)
     = (Response 200 (Created (demo_recording\<lparr> gcsPath := None \<rparr>) ''/v/abc12345''), world_direct)"
  by (simp add: POST_upload_direct_def getSettings_def saveSettings_def initial_world_def
      demo_settings_def demo_env_def createRecording_def new_recording_def demo_request_def
      holding_path_def demo_recording_def world_direct_def or_zero_def Let_def)

section \<open>The direct upload with an empty payload\<close>

text \<open>
  Claim C7. For an existing recording and a configured destination folder, a direct
  upload with a payload of zero bytes is answered with 400 (empty video file); the ledger
  is moved to \<open>Uploading\<close> and then to \<open>Error\<close> before the answer, so the recording
  ends in \<open>Error\<close>, and no file is put into the final store.
\<close>

theorem PUT_empty_payload:
  assumes "recordings w i = Some d" and "settings_doc w = Some s" and "s_driveFolderId s \<noteq> []"
  shows "fst (PUT env i [] w) = Response 400 (Error_message ''Empty video file received'')
       \<and> map_option status (recordings (snd (PUT env i [] w)) i) = Some Error
       \<and> drive (snd (PUT env i [] w)) = drive w
       \<and> journal (snd (PUT env i [] w)) = journal w @ [(i, Uploading), (i, Error)]"
  using assms
  by (simp add: PUT_def PUT_try_def on_error_def getRecording_def getSettings_def and_then_def
      updateRecording_present)

theorem PUT_empty_payload_witness:
  "fst (PUT demo_env ''abc12345'' [] world_direct)
     = Response 400 (Error_message ''Empty video file received'')
   \<and> map_option status (recordings (snd (PUT demo_env ''abc12345'' [] world_direct)) ''abc12345'')
     = Some Error
   \<and> drive (snd (PUT demo_env ''abc12345'' [] world_direct)) = []
   \<and> journal (snd (PUT demo_env ''abc12345'' [] world_direct))
     = [(''abc12345'', Processing), (''abc12345'', Uploading), (''abc12345'', Error)]"
  using PUT_empty_payload [of world_direct "''abc12345''" "demo_recording\<lparr> gcsPath := None \<rparr>"
      demo_settings demo_env]
  by (simp add: world_direct_def demo_settings_def demo_recording_def)

section \<open>The transfer trigger without an uploaded object\<close>

text \<open>
  Claim C3. For a recording whose holding path is set and names no object of the holding
  area, the transfer trigger answers 404 (upload file not found) and sets the status to
  \<open>Error\<close>; the only status it writes is \<open>Error\<close>, never \<open>Ready\<close>, and nothing is put
  into the final store. (When the existence check itself throws, the answer is 500 and
  the rest is the same.)
\<close>

theorem transfer_missing_object:
  assumes "recordings w i = Some d" and "gcsPath d = Some p" and "p \<noteq> []" and "bucket w p = None"
  shows "fst (POST_transfer env i w) =
           (if gcs_exists_ok env
            then Response 404 (Error_message ''Upload file not found. Please try recording again.'')
            else Response 500 (Error_thrown Gcs_failure))
       \<and> map_option status (recordings (snd (POST_transfer env i w)) i) = Some Error
       \<and> drive (snd (POST_transfer env i w)) = drive w
       \<and> journal (snd (POST_transfer env i w)) = journal w @ [(i, Error)]"
  using assms
  by (simp add: POST_transfer_def POST_transfer_try_def on_error_def getRecording_def and_then_def
      checkGcsFile_def updateRecording_present)

theorem transfer_missing_object_witness:
  "fst (POST_transfer demo_env ''abc12345'' world_signed)
     = Response 404 (Error_message ''Upload file not found. Please try recording again.'')
   \<and> map_option status (recordings (snd (POST_transfer demo_env ''abc12345'' world_signed))
        ''abc12345'') = Some Error
   \<and> drive (snd (POST_transfer demo_env ''abc12345'' world_signed)) = []
   \<and> journal (snd (POST_transfer demo_env ''abc12345'' world_signed))
     = [(''abc12345'', Processing), (''abc12345'', Error)]"
  using transfer_missing_object [of world_signed "''abc12345''" demo_recording
      "''uploads/abc12345.webm''" demo_env]
  by (simp add: world_signed_def demo_recording_def demo_env_def)

section \<open>The transfer trigger, invoked again\<close>

lemma demo_transfer:
  "fst (POST_transfer demo_env ''abc12345'' world_held) = Response 200 (Upload_done ''drv1'')"
  by (simp add: POST_transfer_def POST_transfer_try_def on_error_def getRecording_def
      world_held_def holding_upload_def world_signed_def demo_recording_def demo_env_def
      demo_settings_def checkGcsFile_def getSettings_def updateRecording_def
      transferFromGcsToDrive_def drive_files_create_def Let_def)

text \<open>
  Claim C5. After a transfer that succeeded, the recording is \<open>Ready\<close> with its holding
  path cleared, and a further invocation of the trigger, whatever the outside world does,
  answers 400 (no upload found) and leaves the whole state as it is: no status write, no
  change of the holding bucket, no file put into the final store.
\<close>

theorem transfer_again_after_success:
  assumes "POST_transfer env i w = (Response 200 b, w')"
  shows "map_option status (recordings w' i) = Some Ready
       \<and> map_option gcsPath (recordings w' i) = Some (Some [])
       \<and> POST_transfer env' i w' =
           (Response 400 (Error_message ''No upload found for this recording''), w')"
proof (rule POST_transfer_success [OF assms])
  fix d p s fid buf
  assume r: "recordings w' = (recordings w)(i \<mapsto>
        merge_fields (no_updates\<lparr> u_driveFileId := Some fid, u_status := Some Ready,
                        u_gcsPath := Some [], u_updatedAt := Some (clock env 1) \<rparr>)
          (merge_fields ((set_status Uploading)\<lparr> u_updatedAt := Some (clock env 0) \<rparr>) d))"
  then obtain d' where d': "recordings w' i = Some d'" "gcsPath d' = Some []" "status d' = Ready"
    by (simp add: merge_fields_def no_updates_def)
  with POST_transfer_no_path [of w' i d' env'] show ?thesis by simp
qed

theorem transfer_again_after_success_witness:
  "fst (POST_transfer demo_env ''abc12345'' world_held) = Response 200 (Upload_done ''drv1'')
   \<and> POST_transfer demo_env ''abc12345'' (snd (POST_transfer demo_env ''abc12345'' world_held))
     = (Response 400 (Error_message ''No upload found for this recording''),
        snd (POST_transfer demo_env ''abc12345'' world_held))"
proof -
  have "POST_transfer demo_env ''abc12345'' world_held
          = (Response 200 (Upload_done ''drv1''), snd (POST_transfer demo_env ''abc12345'' world_held))"
    using demo_transfer by (simp add: prod_eq_iff)
  from transfer_again_after_success [OF this, of demo_env] demo_transfer
  show ?thesis by simp
qed

section \<open>Concrete runs of the handlers\<close>

lemmas run_defs = PUT_def PUT_try_def POST_transfer_def POST_transfer_try_def on_error_def
  getRecording_def getSettings_def saveSettings_def updateRecording_def log_status_def
  merge_fields_def set_status_def no_updates_def uploadToDriveResumable_def
  transferFromGcsToDrive_def checkGcsFile_def drive_files_create_def fileName_of_def
  replace_unsafe_def in_class_def Let_def holding_upload_def

lemmas demo_defs = world_direct_def world_signed_def demo_recording_def demo_env_def
  demo_settings_def

lemma world_ready_uploaded:
  "PUT demo_env ''abc12345'' [1] world_direct = (Response 200 (Upload_done ''drv1''), world_ready)"
  by (simp add: run_defs demo_defs world_ready_def)

lemma reachable_world_signed: "reachable world_signed"
proof -
  have "reachable (saveSettings demo_settings initial_world)"
    by (intro reachable.intros)
  then have "reachable (snd (POST_upload demo_env (Some demo_request)
                               (saveSettings demo_settings initial_world)))"
    by (rule reachable.create_signed) (simp add: demo_env_def)
  then show ?thesis by (simp add: world_signed_created)
qed

lemma reachable_world_direct: "reachable world_direct"
proof -
  have "reachable (saveSettings demo_settings initial_world)"
    by (intro reachable.intros)
  then have "reachable (snd (POST_upload_direct demo_env (Some demo_request)
                               (saveSettings demo_settings initial_world)))"
    by (rule reachable.create_direct) (simp add: demo_env_def)
  then show ?thesis by (simp add: world_direct_created)
qed

lemma reachable_world_ready: "reachable world_ready"
proof -
  have "reachable (snd (PUT demo_env ''abc12345'' [1] world_direct))"
    by (rule reachable.direct_upload [OF reachable_world_direct]) (simp add: demo_env_def)
  then show ?thesis by (simp add: world_ready_uploaded)
qed

lemma reachable_world_held: "reachable world_held"
  unfolding world_held_def by (rule reachable.client_upload [OF reachable_world_signed])

lemma demo_transfer_run:
  "POST_transfer demo_env ''abc12345'' world_held
     = (Response 200 (Upload_done ''drv1''), snd (POST_transfer demo_env ''abc12345'' world_held))"
  using demo_transfer by (simp add: prod_eq_iff)

lemma demo_PUT_run:
  "PUT demo_env ''abc12345'' [1] world_direct
     = (Response 200 (Upload_done ''drv1''), snd (PUT demo_env ''abc12345'' [1] world_direct))"
  by (simp add: world_ready_uploaded)

section \<open>The destination folder of a put\<close>

text \<open>
  Claim C4, as stated, fails. The recording of \<open>world_moved\<close> was created while the
  settings named folder F1, and holds F1; the settings now name F2. The direct upload
  puts the file into F2.
\<close>

theorem upload_folder_counterexample:
  "reachable world_moved
   \<and> map_option driveFolderId (recordings world_moved ''abc12345'') = Some ''F1''
   \<and> fst (PUT demo_env ''abc12345'' [1] world_moved) = Response 200 (Upload_done ''drv1'')
   \<and> map parent (drive (snd (PUT demo_env ''abc12345'' [1] world_moved))) = [''F2'']"
proof -
  have "reachable world_moved"
    unfolding world_moved_def by (rule reachable.save_settings [OF reachable_world_direct])
  then show ?thesis by (simp add: run_defs demo_defs world_moved_def)
qed

text \<open>
  Claim C4, amended. The put of a successful direct upload or transfer goes into the
  destination folder that the settings hold when the upload request is handled; the
  folder captured in the recording at creation is not consulted, and stays as it is.
\<close>

theorem upload_folder_is_current_setting:
  "(PUT env i buf w = (Response 200 b, w') \<longrightarrow>
      (\<exists>s d. settings_doc w = Some s \<and> recordings w i = Some d
         \<and> map parent (drive w') = map parent (drive w) @ [s_driveFolderId s]
         \<and> map_option driveFolderId (recordings w' i) = Some (driveFolderId d)))
   \<and> (POST_transfer env i w = (Response 200 b, w') \<longrightarrow>
      (\<exists>s d. settings_doc w = Some s \<and> recordings w i = Some d
         \<and> map parent (drive w') = map parent (drive w) @ [s_driveFolderId s]
         \<and> map_option driveFolderId (recordings w' i) = Some (driveFolderId d)))"
proof (intro conjI impI)
  assume "PUT env i buf w = (Response 200 b, w')"
  then show "\<exists>s d. settings_doc w = Some s \<and> recordings w i = Some d
         \<and> map parent (drive w') = map parent (drive w) @ [s_driveFolderId s]
         \<and> map_option driveFolderId (recordings w' i) = Some (driveFolderId d)"
    by (rule PUT_success) (simp add: merge_fields_def no_updates_def set_status_def)
next
  assume "POST_transfer env i w = (Response 200 b, w')"
  then show "\<exists>s d. settings_doc w = Some s \<and> recordings w i = Some d
         \<and> map parent (drive w') = map parent (drive w) @ [s_driveFolderId s]
         \<and> map_option driveFolderId (recordings w' i) = Some (driveFolderId d)"
    by (rule POST_transfer_success) (simp add: merge_fields_def no_updates_def set_status_def)
qed

theorem upload_folder_is_current_setting_witness:
  "PUT demo_env ''abc12345'' [1] world_moved
     = (Response 200 (Upload_done ''drv1''), snd (PUT demo_env ''abc12345'' [1] world_moved))
   \<and> map_option s_driveFolderId (settings_doc world_moved) = Some ''F2''
   \<and> map parent (drive (snd (PUT demo_env ''abc12345'' [1] world_moved)))
       = map parent (drive world_moved) @ [''F2'']
   \<and> map_option driveFolderId (recordings (snd (PUT demo_env ''abc12345'' [1] world_moved))
        ''abc12345'') = Some ''F1''
   \<and> fst (POST_transfer demo_env ''abc12345'' world_held) = Response 200 (Upload_done ''drv1'')
   \<and> map_option s_driveFolderId (settings_doc world_held) = Some ''F1''
   \<and> map parent (drive (snd (POST_transfer demo_env ''abc12345'' world_held))) = [''F1'']"
proof -
  have run: "PUT demo_env ''abc12345'' [1] world_moved
     = (Response 200 (Upload_done ''drv1''), snd (PUT demo_env ''abc12345'' [1] world_moved))"
    by (simp add: prod_eq_iff run_defs demo_defs world_moved_def)
  from upload_folder_is_current_setting [of demo_env "''abc12345''" "[1]" world_moved
      "Upload_done ''drv1''" "snd (PUT demo_env ''abc12345'' [1] world_moved)"] run
  have a: "map parent (drive (snd (PUT demo_env ''abc12345'' [1] world_moved)))
       = map parent (drive world_moved) @ [''F2'']
     \<and> map_option driveFolderId (recordings (snd (PUT demo_env ''abc12345'' [1] world_moved))
        ''abc12345'') = Some ''F1''"
    by (auto simp: demo_defs world_moved_def saveSettings_def)
  from upload_folder_is_current_setting [of demo_env "''abc12345''" "[1]" world_held
      "Upload_done ''drv1''" "snd (POST_transfer demo_env ''abc12345'' world_held)"]
    demo_transfer_run
  have b: "map parent (drive (snd (POST_transfer demo_env ''abc12345'' world_held))) = [''F1'']"
    by (auto simp: demo_defs world_held_def holding_upload_def)
  from a b run demo_transfer show ?thesis
    by (simp add: demo_defs world_moved_def world_held_def saveSettings_def holding_upload_def)
qed

section \<open>Updates of a recording\<close>

text \<open>
  Claim C8, as stated, fails: \<open>updateRecording\<close> writes a \<^verbatim>\<open>createdAt\<close> that the partial
  fields carry.
\<close>

theorem update_overwrites_createdAt_counterexample:
  "map_option createdAt (getRecording ''abc12345'' world_signed) = Some 200
   \<and> fst (updateRecording 300 ''abc12345'' (no_updates\<lparr> u_createdAt := Some 5 \<rparr>) world_signed)
       = Inr ()
   \<and> map_option createdAt (getRecording ''abc12345''
        (snd (updateRecording 300 ''abc12345'' (no_updates\<lparr> u_createdAt := Some 5 \<rparr>)
               world_signed))) = Some 5"
  by (simp add: run_defs demo_defs)

text \<open>
  Claim C8, amended. For an existing id the update succeeds, merges the given fields and
  sets \<^verbatim>\<open>updatedAt\<close> to the current time. The id read back is the document key,
  whatever the partial fields hold. \<^verbatim>\<open>createdAt\<close> is unchanged when the partial
  fields carry none and is replaced by the given value when they do. The rename endpoint
  passes the title only, so it changes neither the id nor \<^verbatim>\<open>createdAt\<close>.
\<close>

theorem update_merges_fields:
  assumes "recordings w i = Some d"
  shows "fst (updateRecording now i u w) = Inr ()
       \<and> getRecording i (snd (updateRecording now i u w))
           = Some ((merge_fields (u\<lparr> u_updatedAt := Some now \<rparr>) d)\<lparr> rec_id := i \<rparr>)
       \<and> map_option rec_id (getRecording i (snd (updateRecording now i u w))) = Some i
       \<and> map_option updatedAt (getRecording i (snd (updateRecording now i u w))) = Some now
       \<and> map_option createdAt (getRecording i (snd (updateRecording now i u w)))
           = Some (case u_createdAt u of None \<Rightarrow> createdAt d | Some c \<Rightarrow> c)
       \<and> map_option rec_id (getRecording i (snd (PATCH_recording env i t w))) = Some i
       \<and> map_option createdAt (getRecording i (snd (PATCH_recording env i t w)))
           = Some (createdAt d)
       \<and> map_option title (getRecording i (snd (PATCH_recording env i t w)))
           = Some (case t of None \<Rightarrow> title d | Some x \<Rightarrow> x)"
  using assms
  by (cases t)
    (simp_all add: updateRecording_present getRecording_def merge_fields_def PATCH_recording_def
      Let_def no_updates_def)

theorem update_merges_fields_witness:
  "map_option rec_id (getRecording ''abc12345''
      (snd (updateRecording 300 ''abc12345''
              (no_updates\<lparr> u_id := Some ''other'', u_title := Some ''New'' \<rparr>) world_signed)))
     = Some ''abc12345''
   \<and> map_option createdAt (getRecording ''abc12345''
      (snd (updateRecording 300 ''abc12345''
              (no_updates\<lparr> u_id := Some ''other'', u_title := Some ''New'' \<rparr>) world_signed)))
     = Some 200
   \<and> map_option updatedAt (getRecording ''abc12345''
      (snd (updateRecording 300 ''abc12345''
              (no_updates\<lparr> u_id := Some ''other'', u_title := Some ''New'' \<rparr>) world_signed)))
     = Some 300"
  using update_merges_fields [of world_signed "''abc12345''" demo_recording 300
      "no_updates\<lparr> u_id := Some ''other'', u_title := Some ''New'' \<rparr>" demo_env None]
  by (simp add: demo_defs run_defs)

section \<open>The name of the uploaded file\<close>

lemma in_class_alnum: "in_class c \<longleftrightarrow> c \<in> set alnum_chars"
  by (cases c) (simp add: in_class_def alnum_chars_def Let_def)

lemma replace_unsafe_alnum:
  "replace_unsafe t = map (\<lambda>c. if c \<in> set alnum_chars then c else CHR ''_'') t"
  by (simp add: replace_unsafe_def in_class_alnum)

lemma fileName_of_same_title: "fileName_of t i = fileName_of t j \<Longrightarrow> i = j"
  by (simp add: fileName_of_def)

lemma fileName_of_same_length:
  assumes "length i = length j" and "fileName_of t1 i = fileName_of t2 j"
  shows "i = j"
proof -
  from assms(2) have "(replace_unsafe t1 @ ''_'') @ (i @ ''.webm'')
                    = (replace_unsafe t2 @ ''_'') @ (j @ ''.webm'')"
    by (simp add: fileName_of_def)
  with assms(1) have "i @ ''.webm'' = j @ ''.webm''"
    by (subst (asm) append_eq_append_conv) simp_all
  then show ?thesis by simp
qed

text \<open>Without equal lengths two names can coincide.\<close>

lemma fileName_of_collision: "fileName_of ''a'' ''b_c'' = fileName_of ''a_b'' ''c''"
  by (simp add: fileName_of_def replace_unsafe_def in_class_def)

text \<open>
  Claim C9. The derived file name is the title with every character that is not a letter
  or a digit replaced by an underscore, then an underscore, the recording id and
  \<^verbatim>\<open>.webm\<close>. For one title, distinct ids give distinct names. For the recordings of a
  reachable state, whose ids all have eight characters, distinct ids give distinct names
  whatever the titles are. The file that a successful direct upload or transfer puts
  into the final store carries this name, made from the title and the id of the
  recording.
\<close>

theorem derived_file_name:
  "fileName_of ttl i
     = map (\<lambda>c. if c \<in> set alnum_chars then c else CHR ''_'') ttl @ ''_'' @ i @ ''.webm''
   \<and> (i \<noteq> j \<longrightarrow> fileName_of ttl i \<noteq> fileName_of ttl j)
   \<and> (reachable w \<and> recordings w i = Some d \<and> recordings w j = Some e \<and> i \<noteq> j \<longrightarrow>
        fileName_of (title d) i \<noteq> fileName_of (title e) j)
   \<and> (PUT env i buf w = (Response 200 b, w') \<longrightarrow>
        (\<exists>r. recordings w i = Some r
           \<and> map file_name (drive w') = map file_name (drive w) @ [fileName_of (title r) i]))
   \<and> (POST_transfer env i w = (Response 200 b, w') \<longrightarrow>
        (\<exists>r. recordings w i = Some r
           \<and> map file_name (drive w') = map file_name (drive w) @ [fileName_of (title r) i]))"
proof (intro conjI impI)
  show "fileName_of ttl i
     = map (\<lambda>c. if c \<in> set alnum_chars then c else CHR ''_'') ttl @ ''_'' @ i @ ''.webm''"
    by (simp add: fileName_of_def replace_unsafe_alnum)
next
  assume "i \<noteq> j"
  then show "fileName_of ttl i \<noteq> fileName_of ttl j"
    using fileName_of_same_title by blast
next
  assume a: "reachable w \<and> recordings w i = Some d \<and> recordings w j = Some e \<and> i \<noteq> j"
  then have "length i = length j"
    using reachable_short_ids [of w] by (simp add: short_ids_def)
  with a show "fileName_of (title d) i \<noteq> fileName_of (title e) j"
    using fileName_of_same_length by blast
next
  assume "PUT env i buf w = (Response 200 b, w')"
  then show "\<exists>r. recordings w i = Some r
           \<and> map file_name (drive w') = map file_name (drive w) @ [fileName_of (title r) i]"
    by (rule PUT_success) simp
next
  assume "POST_transfer env i w = (Response 200 b, w')"
  then show "\<exists>r. recordings w i = Some r
           \<and> map file_name (drive w') = map file_name (drive w) @ [fileName_of (title r) i]"
    by (rule POST_transfer_success) simp
qed

lemma world_two_recordings:
  "recordings world_two = [''abc12345'' \<mapsto> demo_recording,
      ''def67890'' \<mapsto> demo_recording\<lparr> rec_id := ''def67890'', gcsPath := None \<rparr>]"
  by (simp add: world_two_def POST_upload_direct_def demo_env2_def demo_defs getSettings_def
      createRecording_def new_recording_def demo_request_def or_zero_def Let_def)

lemma reachable_world_two: "reachable world_two"
  unfolding world_two_def
  by (rule reachable.create_direct [OF reachable_world_signed])
    (simp add: demo_env2_def demo_env_def)

theorem derived_file_name_witness:
  "reachable world_two
   \<and> map_option title (recordings world_two ''abc12345'') = Some ''Demo''
   \<and> map_option title (recordings world_two ''def67890'') = Some ''Demo''
   \<and> fileName_of ''Demo'' ''abc12345'' \<noteq> fileName_of ''Demo'' ''def67890''
   \<and> fileName_of ''My Demo!'' ''abc12345'' = ''My_Demo__abc12345.webm''
   \<and> fst (PUT demo_env ''abc12345'' [1] world_direct) = Response 200 (Upload_done ''drv1'')
   \<and> map file_name (drive (snd (PUT demo_env ''abc12345'' [1] world_direct)))
       = [''Demo_abc12345.webm'']
   \<and> fst (POST_transfer demo_env ''abc12345'' world_held) = Response 200 (Upload_done ''drv1'')
   \<and> map file_name (drive (snd (POST_transfer demo_env ''abc12345'' world_held)))
       = [''Demo_abc12345.webm'']"
proof -
  from derived_file_name [of "''My Demo!''" "''abc12345''" "''def67890''" world_two
      demo_recording "demo_recording\<lparr> rec_id := ''def67890'', gcsPath := None \<rparr>"]
    reachable_world_two
  have a: "fileName_of ''Demo'' ''abc12345'' \<noteq> fileName_of ''Demo'' ''def67890''
     \<and> fileName_of ''My Demo!'' ''abc12345'' = ''My_Demo__abc12345.webm''"
    by (simp add: world_two_recordings demo_recording_def alnum_chars_def)
  from derived_file_name [where i = "''abc12345''" and env = demo_env and buf = "[1]"
      and w = world_direct and b = "Upload_done ''drv1''"
      and w' = "snd (PUT demo_env ''abc12345'' [1] world_direct)"] demo_PUT_run
  have b: "map file_name (drive (snd (PUT demo_env ''abc12345'' [1] world_direct)))
       = [''Demo_abc12345.webm'']"
    by (auto simp: demo_defs fileName_of_def replace_unsafe_def in_class_def)
  from derived_file_name [where i = "''abc12345''" and env = demo_env and w = world_held
      and b = "Upload_done ''drv1''"
      and w' = "snd (POST_transfer demo_env ''abc12345'' world_held)"]
    demo_transfer_run
  have c: "map file_name (drive (snd (POST_transfer demo_env ''abc12345'' world_held)))
       = [''Demo_abc12345.webm'']"
    by (auto simp: demo_defs world_held_def holding_upload_def fileName_of_def
        replace_unsafe_def in_class_def)
  from a b c reachable_world_two demo_transfer show ?thesis
    by (simp add: world_two_recordings demo_recording_def world_ready_uploaded)
qed

section \<open>View counting on an unknown id\<close>

text \<open>
  Claim C10, as stated, fails in its contrast: \<open>deleteRecording\<close> on an id with no
  document reports nothing either. The id \<^verbatim>\<open>zzzzzzzz\<close> is not in the ledger of
  \<open>world_signed\<close>; deleting it succeeds and leaves the ledger as it is.
\<close>

theorem delete_unknown_id_counterexample:
  "recordings world_signed ''zzzzzzzz'' = None
   \<and> fst (deleteRecording ''zzzzzzzz'' world_signed) = Inr ()
   \<and> recordings (snd (deleteRecording ''zzzzzzzz'' world_signed)) = recordings world_signed"
  by (simp add: deleteRecording_def world_signed_def)

text \<open>
  Claim C10, amended. Take an id that has no document in the ledger and that addresses
  its own document. \<open>incrementViewCount\<close> completes and leaves the whole state as it
  was, the log of writes included: the transaction function writes only when the
  document exists. \<open>getRecording\<close> returns nothing and \<open>updateRecording\<close> is rejected
  by the document store. \<open>deleteRecording\<close> completes like \<open>incrementViewCount\<close>: the
  delete is sent, the ledger stays as it was. It is the read, rename and delete endpoints
  that answer 404, because each of them reads the recording first. For a string that
  \<^verbatim>\<open>doc(id)\<close> rejects, \<open>incrementViewCount\<close> is rejected and nothing is written.
\<close>

theorem incrementViewCount_absent:
  assumes "recordings w i = None" and "doc_key env i = Some i"
  shows "incrementViewCount (doc_key env) now i w = (Inr (), w)
       \<and> getRecording i w = None
       \<and> updateRecording now i u w = (Inl (No_document i), w)
       \<and> fst (deleteRecording i w) = Inr ()
       \<and> recordings (snd (deleteRecording i w)) = recordings w
       \<and> writes (snd (deleteRecording i w)) = writes w @ [Delete_doc i]
       \<and> GET_recording env i view w = (Response 404 (Error_message ''Recording not found''), w)
       \<and> PATCH_recording env i t w = (Response 404 (Error_message ''Recording not found''), w)
       \<and> DELETE_recording env i w = (Response 404 (Error_message ''Recording not found''), w)
       \<and> (doc_key env j = None \<longrightarrow>
            incrementViewCount (doc_key env) now j w = (Inl (Invalid_path j), w))"
  using assms
  by (auto simp: incrementViewCount_def transaction_write_def view_update_def getRecording_def
      updateRecording_absent deleteRecording_def GET_recording_def PATCH_recording_def
      DELETE_recording_def)

theorem incrementViewCount_absent_witness:
  "recordings world_signed ''zzzzzzzz'' = None
   \<and> doc_key demo_env ''zzzzzzzz'' = Some ''zzzzzzzz''
   \<and> incrementViewCount (doc_key demo_env) 7 ''zzzzzzzz'' world_signed = (Inr (), world_signed)
   \<and> getRecording ''zzzzzzzz'' world_signed = None
   \<and> updateRecording 7 ''zzzzzzzz'' (set_status Ready) world_signed
       = (Inl (No_document ''zzzzzzzz''), world_signed)
   \<and> fst (deleteRecording ''zzzzzzzz'' world_signed) = Inr ()
   \<and> DELETE_recording demo_env ''zzzzzzzz'' world_signed
       = (Response 404 (Error_message ''Recording not found''), world_signed)
   \<and> doc_key demo_env [] = None
   \<and> incrementViewCount (doc_key demo_env) 7 [] world_signed
       = (Inl (Invalid_path []), world_signed)"
  using incrementViewCount_absent [of world_signed "''zzzzzzzz''" demo_env 7 "set_status Ready"
      False None "[]"]
  by (simp add: world_signed_def demo_env_def)

section \<open>Concurrent view counting\<close>

lemma or_zero_id [simp]: "or_zero x = x"
  by (simp add: or_zero_def)













lemma committed_none [simp]: "committed (replicate n (Not_started a)) = 0"
  by (simp add: committed_def)



text \<open>One call alone, run through the transaction, is \<open>incrementViewCount\<close>.\<close>

lemma incrementViewCount_alone:
  assumes "key_of i = Some k"
  shows "run_schedule m k [(0, t), (0, t')] (w, [Not_started 0])
           = (snd (incrementViewCount key_of t i w), [Committed])"
  using assms by (simp add: incrementViewCount_def)







section \<open>The status values that one request writes\<close>

lemma configured_iff:
  "configured w \<longleftrightarrow> (\<exists>s. settings_doc w = Some s \<and> s_driveFolderId s \<noteq> [])"
  by (cases "settings_doc w") (simp_all add: configured_def getSettings_def)

lemma unconfigured_iff:
  "\<not> configured w \<longleftrightarrow>
     settings_doc w = None \<or> (\<exists>s. settings_doc w = Some s \<and> s_driveFolderId s = [])"
  by (cases "settings_doc w") (simp_all add: configured_def getSettings_def)

text \<open>The three Drive calls succeed together or the upload throws.\<close>

lemma drive_files_create_result:
  "fst (drive_files_create env buf n m f w)
     = (if drive_ok env then Inr (the (drive_create env)) else Inl Drive_failure)"
  by (cases "drive_create env") (simp_all add: drive_files_create_def drive_ok_def Let_def)

lemma transferFromGcsToDrive_result:
  "fst (transferFromGcsToDrive env p n f w)
     = (if gcs_download_ok env \<and> bucket w p \<noteq> None
        then (if drive_ok env then Inr (the (drive_create env)) else Inl Drive_failure)
        else Inl Gcs_failure)"
proof (cases "gcs_download_ok env \<and> bucket w p \<noteq> None")
  case False
  then show ?thesis by (auto simp: transferFromGcsToDrive_def)
next
  case True
  then obtain buf where buf: "bucket w p = Some buf" by auto
  obtain r w1 where c: "drive_files_create env buf n ''video/webm'' f w = (r, w1)"
    by (cases "drive_files_create env buf n ''video/webm'' f w") blast
  with drive_files_create_result [of env buf n "''video/webm''" f w]
  have "r = (if drive_ok env then Inr (the (drive_create env)) else Inl Drive_failure)" by simp
  with True buf c show ?thesis by (simp add: transferFromGcsToDrive_def)
qed

text \<open>The two writes of an upload that has begun: \<open>Uploading\<close>, then \<open>Ready\<close> or
  \<open>Error\<close>.\<close>

lemma journal_updateRecording:
  "journal (snd (updateRecording now i u w))
     = journal w @ (if recordings w i = None then [] else log_status i u)"
  by (cases "recordings w i") (simp_all add: updateRecording_absent snd_updateRecording_present)

lemma recordings_updateRecording_None:
  "recordings (snd (updateRecording now i u w)) j = None \<longleftrightarrow> recordings w j = None"
  by (cases "recordings w i") (simp_all add: updateRecording_absent snd_updateRecording_present)

lemma PUT_statuses:
  "journal (snd (PUT env i buf w)) = journal w @
     (if recordings w i = None \<or> \<not> configured w then []
      else [(i, Uploading), (i, if buf \<noteq> [] \<and> drive_ok env then Ready else Error)])"
proof (cases "recordings w i")
  case None
  then show ?thesis by (simp add: PUT_unknown)
next
  case (Some d)
  show ?thesis
  proof (cases "configured w")
    case False
    with Some PUT_unconfigured [OF Some, of env buf] show ?thesis
      by (simp add: unconfigured_iff)
  next
    case True
    then obtain s where s: "settings_doc w = Some s" "s_driveFolderId s \<noteq> []"
      by (auto simp: configured_iff)
    let ?w1 = "snd (updateRecording (clock env 0) i (set_status Uploading) w)"
    have w1: "journal ?w1 = journal w @ [(i, Uploading)]" "recordings ?w1 i \<noteq> None"
      using Some by (simp_all add: journal_updateRecording recordings_updateRecording_None)
    show ?thesis
    proof (cases "buf = []")
      case True
      have "PUT env i buf w = (Response 400 (Error_message ''Empty video file received''),
              snd (updateRecording (clock env 1) i (set_status Error) ?w1))"
        using True Some s
        by (simp add: PUT_def PUT_try_def on_error_def getRecording_def getSettings_def
            updateRecording_present)
      with w1 Some \<open>configured w\<close> True show ?thesis by (simp add: journal_updateRecording)
    next
      case False
      obtain r w2 where c: "drive_files_create env buf (fileName_of (title d) i) ''video/webm''
          (s_driveFolderId s) ?w1 = (r, w2)"
        by (cases "drive_files_create env buf (fileName_of (title d) i) ''video/webm''
          (s_driveFolderId s) ?w1") blast
      from drive_files_create_result [of env buf "fileName_of (title d) i" "''video/webm''"
          "s_driveFolderId s" ?w1] c
      have r: "r = (if drive_ok env then Inr (the (drive_create env)) else Inl Drive_failure)"
        by simp
      have w2: "journal w2 = journal w @ [(i, Uploading)]" "recordings w2 i \<noteq> None"
        using drive_files_create_frame [OF c] w1 by simp_all
      from PUT_main [OF Some s False, of env] c r w2 Some \<open>configured w\<close> False
      show ?thesis by (auto simp: journal_updateRecording)
    qed
  qed
qed

lemma POST_transfer_statuses:
  "journal (snd (POST_transfer env i w)) = journal w @
     (case recordings w i of
        None \<Rightarrow> []
      | Some d \<Rightarrow>
          (case gcsPath d of
             None \<Rightarrow> []
           | Some p \<Rightarrow>
               if p = [] then []
               else if \<not> gcs_exists_ok env \<or> bucket w p = None then [(i, Error)]
               else if \<not> configured w then []
               else [(i, Uploading),
                     (i, if gcs_download_ok env \<and> drive_ok env then Ready else Error)]))"
proof (cases "recordings w i")
  case None
  then show ?thesis by (simp add: POST_transfer_unknown)
next
  case (Some d)
  show ?thesis
  proof (cases "gcsPath d = None \<or> gcsPath d = Some []")
    case True
    with Some POST_transfer_no_path [OF Some True, of env] show ?thesis by auto
  next
    case False
    then obtain p where p: "gcsPath d = Some p" "p \<noteq> []" by auto
    show ?thesis
    proof (cases "gcs_exists_ok env")
      case False
      with Some p POST_transfer_check_fails [OF Some p False] show ?thesis
        by (simp add: journal_updateRecording)
    next
      case x: True
      show ?thesis
      proof (cases "bucket w p = None")
        case True
        with Some p x POST_transfer_missing [OF Some p x True] show ?thesis
          by (simp add: journal_updateRecording)
      next
        case b: False
        show ?thesis
        proof (cases "configured w")
          case False
          with Some p x b POST_transfer_unconfigured [OF Some p x b] show ?thesis
            by (simp add: unconfigured_iff)
        next
          case True
          then obtain s where s: "settings_doc w = Some s" "s_driveFolderId s \<noteq> []"
            by (auto simp: configured_iff)
          let ?w1 = "snd (updateRecording (clock env 0) i (set_status Uploading) w)"
          have w1: "journal ?w1 = journal w @ [(i, Uploading)]" "recordings ?w1 i \<noteq> None"
            "bucket ?w1 p \<noteq> None"
            using Some b
            by (simp_all add: journal_updateRecording recordings_updateRecording_None
                snd_updateRecording_present)
          obtain r w2 where c: "transferFromGcsToDrive env p (fileName_of (title d) i)
              (s_driveFolderId s) ?w1 = (r, w2)"
            by (cases "transferFromGcsToDrive env p (fileName_of (title d) i)
              (s_driveFolderId s) ?w1") blast
          from transferFromGcsToDrive_result [of env p "fileName_of (title d) i"
              "s_driveFolderId s" ?w1] c w1(3)
          have r: "r = (if gcs_download_ok env
                        then (if drive_ok env then Inr (the (drive_create env))
                              else Inl Drive_failure)
                        else Inl Gcs_failure)"
            by simp
          have w2: "journal w2 = journal w @ [(i, Uploading)]" "recordings w2 i \<noteq> None"
            using transferFromGcsToDrive_frame [OF c] w1 by simp_all
          from POST_transfer_main [OF Some p x b s] c r w2 Some p x b True
          show ?thesis by (auto simp: journal_updateRecording)
        qed
      qed
    qed
  qed
qed


text \<open>The same for the upload handlers that are sequences of the three calls.\<close>

lemma upload_chain_statuses:
  assumes u: "\<And>fid. log_status i (u fid) = [(i, Ready)]"
    and k: "\<And>fid x w1. k fid x w1 = (Inr (g fid), w1)"
    and m_def: "m = and_then (updateRecording t0 i (set_status Uploading) w)
            (\<lambda>_ w. and_then (uploadToDriveResumable env buf n mt f w)
               (\<lambda>fileId w. and_then (updateRecording t1 i (u fileId) w) (k fileId)))"
  shows "journal (snd m) = journal w @
           (if recordings w i = None then []
            else (i, Uploading) # (if drive_ok env then [(i, Ready)] else []))"
    and "isl (fst m) \<longleftrightarrow> recordings w i = None \<or> \<not> drive_ok env"
    and "recordings (snd m) i = None \<longleftrightarrow> recordings w i = None"
proof -
  have "journal (snd m) = journal w @
           (if recordings w i = None then []
            else (i, Uploading) # (if drive_ok env then [(i, Ready)] else []))
      \<and> (isl (fst m) \<longleftrightarrow> recordings w i = None \<or> \<not> drive_ok env)
      \<and> (recordings (snd m) i = None \<longleftrightarrow> recordings w i = None)"
  proof (cases "recordings w i")
    case None
    then show ?thesis by (simp add: m_def updateRecording_absent)
  next
    case (Some d)
    let ?w1 = "snd (updateRecording t0 i (set_status Uploading) w)"
    have w1: "journal ?w1 = journal w @ [(i, Uploading)]" "recordings ?w1 i \<noteq> None"
      using Some by (simp_all add: journal_updateRecording recordings_updateRecording_None)
    obtain r w2 where c: "drive_files_create env buf n mt f ?w1 = (r, w2)"
      by (cases "drive_files_create env buf n mt f ?w1") blast
    from drive_files_create_result [of env buf n mt f ?w1] c
    have r: "r = (if drive_ok env then Inr (the (drive_create env)) else Inl Drive_failure)"
      by simp
    have w2: "journal w2 = journal w @ [(i, Uploading)]" "recordings w2 i \<noteq> None"
      using drive_files_create_frame [OF c] w1 by simp_all
    then obtain d2 where d2: "recordings w2 i = Some d2" by auto
    have "m = and_then (r, w2)
                (\<lambda>fileId w. and_then (updateRecording t1 i (u fileId) w) (k fileId))"
      using Some c by (simp add: m_def updateRecording_present uploadToDriveResumable_def)
    with r w2 d2 Some show ?thesis
      by (simp add: updateRecording_present [OF d2] k u)
  qed
  then show "journal (snd m) = journal w @
           (if recordings w i = None then []
            else (i, Uploading) # (if drive_ok env then [(i, Ready)] else []))"
    and "isl (fst m) \<longleftrightarrow> recordings w i = None \<or> \<not> drive_ok env"
    and "recordings (snd m) i = None \<longleftrightarrow> recordings w i = None"
    by simp_all
qed

lemma PUT_earlier_statuses:
  "journal (snd (PUT_earlier env i buf w)) = journal w @
     (if recordings w i = None \<or> \<not> configured w then []
      else [(i, Uploading), (i, if drive_ok env then Ready else Error)])"
proof (cases "recordings w i = None \<or> \<not> configured w")
  case True
  then show ?thesis
    by (auto simp: PUT_earlier_def PUT_earlier_try_def getRecording_def configured_def
        split: option.splits)
next
  case False
  then obtain d s where d: "recordings w i = Some d"
    and s: "settings_doc w = Some s" "s_driveFolderId s \<noteq> []"
    by (auto simp: configured_iff)
  let ?m = "and_then (updateRecording (clock env 0) i (set_status Uploading) w)
            (\<lambda>_ w. and_then (uploadToDriveResumable env buf (fileName_of (title d) i)
                               ''video/webm'' (s_driveFolderId s) w)
               (\<lambda>fileId w. and_then (updateRecording (clock env 1) i
                      (no_updates\<lparr> u_driveFileId := Some fileId, u_status := Some Ready,
                         u_fileSize := Some (int (length buf)) \<rparr>) w)
                  (\<lambda>_ w. (Inr (Response 200 (Upload_done fileId)), w))))"
  have t: "PUT_earlier_try env i buf w = ?m"
    using d s by (simp add: PUT_earlier_try_def getRecording_def getSettings_def Let_def)
  note c = upload_chain_statuses [where i = i and w = w and env = env and buf = buf
      and ?t0.0 = "clock env 0" and ?t1.0 = "clock env 1" and n = "fileName_of (title d) i"
      and mt = "''video/webm''" and f = "s_driveFolderId s"
      and u = "\<lambda>fileId. no_updates\<lparr> u_driveFileId := Some fileId, u_status := Some Ready,
                         u_fileSize := Some (int (length buf)) \<rparr>"
      and k = "\<lambda>fileId _ w. (Inr (Response 200 (Upload_done fileId)), w)"
      and g = "\<lambda>fileId. Response 200 (Upload_done fileId)" and m = ?m,
      OF log_ready(1) refl refl]
  show ?thesis
  proof (cases "fst ?m")
    case (Inl e)
    with c(2) d have "\<not> drive_ok env" by simp
    moreover have "PUT_earlier env i buf w
        = (Response 500 (Error_message ''Upload failed''),
           snd (updateRecording (clock env 2) i (set_status Error) (snd ?m)))"
      using Inl t by (cases ?m) (simp add: PUT_earlier_def)
    ultimately show ?thesis using c(1,3) d False
      by (simp add: journal_updateRecording)
  next
    case (Inr resp)
    with c(2) d have "drive_ok env" by auto
    moreover have "snd (PUT_earlier env i buf w) = snd ?m"
      using Inr t by (cases ?m) (simp add: PUT_earlier_def)
    ultimately show ?thesis using c(1) d False by simp
  qed
qed

lemma PUT_legacy_statuses:
  "journal (snd (PUT_legacy env r buf w)) = journal w @
     (case r of
        None \<Rightarrow> []
      | Some i \<Rightarrow>
          if i = [] \<or> \<not> configured w \<or> recordings w i = None then []
          else (i, Uploading) # (if drive_ok env then [(i, Ready)] else []))"
proof (cases "r = None \<or> r = Some [] \<or> \<not> configured w")
  case True
  then show ?thesis
    by (auto simp: PUT_legacy_def PUT_legacy_try_def configured_def split: option.splits)
next
  case False
  then obtain i s where r: "r = Some i" "i \<noteq> []"
    and s: "settings_doc w = Some s" "s_driveFolderId s \<noteq> []"
    by (auto simp: configured_iff)
  let ?m = "and_then (updateRecording (clock env 0) i (set_status Uploading) w)
            (\<lambda>_ w. and_then (uploadToDriveResumable env buf (''recording_'' @ i @ ''.webm'')
                               ''video/webm'' (s_driveFolderId s) w)
               (\<lambda>fileId w. and_then (updateRecording (clock env 1) i
                      (no_updates\<lparr> u_driveFileId := Some fileId, u_status := Some Ready \<rparr>) w)
                  (\<lambda>_ w. (Inr (Response 200 (Upload_stored fileId)), w))))"
  have t: "PUT_legacy_try env r buf w = ?m"
    using r s by (simp add: PUT_legacy_try_def getSettings_def Let_def)
  note c = upload_chain_statuses [where i = i and w = w and env = env and buf = buf
      and ?t0.0 = "clock env 0" and ?t1.0 = "clock env 1"
      and n = "''recording_'' @ i @ ''.webm''"
      and mt = "''video/webm''" and f = "s_driveFolderId s"
      and u = "\<lambda>fileId. no_updates\<lparr> u_driveFileId := Some fileId, u_status := Some Ready \<rparr>"
      and k = "\<lambda>fileId _ w. (Inr (Response 200 (Upload_stored fileId)), w)"
      and g = "\<lambda>fileId. Response 200 (Upload_stored fileId)" and m = ?m,
      OF log_ready(3) refl refl]
  have "snd (PUT_legacy env r buf w) = snd ?m"
    using t by (cases ?m; cases "fst ?m") (simp_all add: PUT_legacy_def)
  with c(1) r False show ?thesis by simp
qed

lemma uploadInBackground_statuses:
  "journal (snd (uploadInBackground env j w)) = journal w @
     (if recordings w (job_recordingId j) = None then []
      else [(job_recordingId j, Uploading),
            (job_recordingId j, if drive_ok env then Ready else Error)])"
proof -
  let ?i = "job_recordingId j"
  let ?m = "and_then (updateRecording (clock env 1) ?i (set_status Uploading) w)
       (\<lambda>_ w. and_then (uploadToDriveResumable env (job_file j)
                          (fileName_of (job_title j) ?i) ''video/webm'' (job_folderId j) w)
          (\<lambda>fileId w. and_then (updateRecording (clock env 2) ?i
                     (no_updates\<lparr> u_driveFileId := Some fileId, u_status := Some Ready \<rparr>) w)
                     (\<lambda>x w. (Inr (), w))))"
  have t: "uploadInBackground_try env j w = ?m"
    unfolding uploadInBackground_try_def Let_def and_then_def
    by (simp split: prod.splits sum.splits)
  note c = upload_chain_statuses [where i = ?i and w = w and env = env and buf = "job_file j"
      and ?t0.0 = "clock env 1" and ?t1.0 = "clock env 2"
      and n = "fileName_of (job_title j) ?i"
      and mt = "''video/webm''" and f = "job_folderId j"
      and u = "\<lambda>fileId. no_updates\<lparr> u_driveFileId := Some fileId, u_status := Some Ready \<rparr>"
      and k = "\<lambda>fileId x w. (Inr (), w)" and g = "\<lambda>fileId. ()" and m = ?m,
      OF log_ready(3) refl refl]
  show ?thesis
  proof (cases "fst ?m")
    case (Inl e)
    with c(2) have a: "recordings w ?i = None \<or> \<not> drive_ok env" by simp
    have "uploadInBackground env j w
        = updateRecording (clock env 3) ?i (set_status Error) (snd ?m)"
      using Inl t by (cases ?m) (simp add: uploadInBackground_def)
    with a c(1,3) show ?thesis by (auto simp: journal_updateRecording)
  next
    case (Inr x)
    with c(2) have a: "recordings w ?i \<noteq> None" "drive_ok env" by auto
    have "snd (uploadInBackground env j w) = snd ?m"
      using Inr t by (cases ?m) (simp add: uploadInBackground_def)
    with a c(1) show ?thesis by simp
  qed
qed


text \<open>The create handlers write \<open>Processing\<close>.\<close>

lemma journal_createRecording:
  "journal (snd (createRecording now r w)) = journal w @ [(rec_id r, status r)]"
  by (simp add: createRecording_def Let_def)

lemma POST_upload_statuses:
  "journal (snd (POST_upload env req w)) = journal w @
     (if req = None \<or> \<not> configured w \<or> \<not> gcs_sign_ok env then []
      else [(take 8 (uuid env), Processing)])"
  by (auto simp: POST_upload_def configured_def Let_def case_prod_unfold
      journal_createRecording split: option.splits)

lemma POST_upload_direct_statuses:
  "journal (snd (POST_upload_direct env req w)) = journal w @
     (if req = None \<or> \<not> configured w then [] else [(take 8 (uuid env), Processing)])"
  by (auto simp: POST_upload_direct_def configured_def Let_def case_prod_unfold
      journal_createRecording split: option.splits)

lemma POST_recordings_created:
  obtains (refused) resp where "vf = None \<or> \<not> configured w"
      "POST_recordings env vf ttl dur w = ((resp, None), w)"
  | (created) resp j w' where "vf \<noteq> None" "configured w"
      "POST_recordings env vf ttl dur w = ((resp, Some j), w')"
      "job_recordingId j = take 8 (uuid env)"
      "journal w' = journal w @ [(take 8 (uuid env), Processing)]"
      "recordings w' (take 8 (uuid env)) \<noteq> None"
proof (cases "vf = None \<or> \<not> configured w")
  case True
  then have "\<exists>resp. POST_recordings env vf ttl dur w = ((resp, None), w)"
    by (auto simp: POST_recordings_def configured_def Let_def split: option.splits)
  with True refused show ?thesis by blast
next
  case False
  then have "\<exists>resp j w'. POST_recordings env vf ttl dur w = ((resp, Some j), w')
      \<and> job_recordingId j = take 8 (uuid env)
      \<and> journal w' = journal w @ [(take 8 (uuid env), Processing)]
      \<and> recordings w' (take 8 (uuid env)) \<noteq> None"
    by (auto simp: POST_recordings_def configured_def Let_def createRecording_def
        split: option.splits)
  with False created show ?thesis by blast
qed

lemma POST_recordings_statuses:
  "journal (snd (POST_recordings env vf ttl dur w)) = journal w @
     (if vf = None \<or> \<not> configured w then [] else [(take 8 (uuid env), Processing)])"
  by (cases rule: POST_recordings_created [of vf w env ttl dur]) auto

lemma POST_recordings_upload_statuses:
  "journal (snd (POST_recordings_upload env vf ttl dur w)) = journal w @
     (if vf = None \<or> \<not> configured w then []
      else [(take 8 (uuid env), Processing), (take 8 (uuid env), Uploading),
            (take 8 (uuid env), if drive_ok env then Ready else Error)])"
proof (cases rule: POST_recordings_created [of vf w env ttl dur])
  case (refused resp)
  then show ?thesis by (auto simp: POST_recordings_upload_def)
next
  case (created resp j w')
  then show ?thesis
    by (simp add: POST_recordings_upload_def uploadInBackground_statuses)
qed

text \<open>The request and the upload it starts, taken together, lead to a reachable
  state.\<close>

lemma reachable_POST_recordings_upload:
  assumes "reachable w" and "length (uuid env) = 36" and "drive_create env \<noteq> Some []"
  shows "reachable (snd (POST_recordings_upload env vf ttl dur w))"
proof (cases rule: POST_recordings_created [of vf w env ttl dur])
  case (refused resp)
  with assms(1) show ?thesis by (simp add: POST_recordings_upload_def)
next
  case (created resp j w')
  have "reachable (snd (POST_recordings env vf ttl dur w))"
    using assms(1,2) by (rule reachable.create_upload)
  with created(3) have "reachable w'" by simp
  then have "reachable (snd (uploadInBackground env j w'))"
    using assms(3) by (rule reachable.background_upload)
  with created(3) show ?thesis by (simp add: POST_recordings_upload_def)
qed

text \<open>Reading, renaming, viewing and deleting write no status, and neither does a
  change of the settings.\<close>

lemma journal_transaction_write:
  "journal (transaction_write k (view_update now doc) w) = journal w"
  by (cases rule: transaction_write_view [of k now doc w]) (simp_all add: log_status_def)

lemma journal_incrementViewCount:
  "journal (snd (incrementViewCount key now i w)) = journal w"
  by (cases "key i") (simp_all add: incrementViewCount_def journal_transaction_write)

lemma PATCH_statuses: "journal (snd (PATCH_recording env i t w)) = journal w"
  by (cases "recordings w i"; cases t)
    (simp_all add: PATCH_recording_def getRecording_def updateRecording_present Let_def
      log_status_def no_updates_def)

lemma GET_statuses: "journal (snd (GET_recording env i view w)) = journal w"
proof -
  have "snd (GET_recording env i view w) = w
        \<or> snd (GET_recording env i view w)
            = snd (incrementViewCount (doc_key env) (clock env 0) i w)"
    by (simp add: GET_recording_def split: option.splits prod.splits sum.splits)
  then show ?thesis by (auto simp: journal_incrementViewCount)
qed

lemma VideoPage_statuses: "journal (snd (VideoPage env i w)) = journal w"
proof -
  have "snd (VideoPage env i w) = w
        \<or> snd (VideoPage env i w) = snd (incrementViewCount (doc_key env) (clock env 0) i w)"
    by (simp add: VideoPage_def and_then_def split: option.splits prod.splits sum.splits)
  then show ?thesis by (auto simp: journal_incrementViewCount)
qed

lemma DELETE_statuses: "journal (snd (DELETE_recording env i w)) = journal w"
  by (cases "recordings w i")
    (simp_all add: DELETE_recording_def getRecording_def deleteRecording_def
      deleteFromDrive_def Let_def)

text \<open>With the requests handled one after the other, every \<open>Ready\<close> of the journal
  comes directly after an \<open>Uploading\<close> of the same recording.\<close>

lemma ready_follows_uploading_append:
  "ready_follows_uploading p (js @ ks)
     = (ready_follows_uploading p js
        \<and> ready_follows_uploading (if js = [] then p else Some (last js)) ks)"
  by (induction js arbitrary: p) auto

lemma ready_follows_uploading_request:
  assumes "ready_follows_uploading None (journal w)"
    and "journal w' = journal w @ ks" and "\<And>q. ready_follows_uploading q ks"
  shows "ready_follows_uploading None (journal w')"
  using assms by (simp add: ready_follows_uploading_append)

lemma reachable_ready_follows_uploading:
  "reachable w \<Longrightarrow> ready_follows_uploading None (journal w)"
proof (induction rule: reachable.induct)
  case start
  show ?case by (simp add: initial_world_def journal_def)
next
  case (save_settings w s)
  then show ?case by (simp add: saveSettings_def)
next
  case (client_upload w path bytes)
  then show ?case by (simp add: holding_upload_def)
next
  case (create_signed w env req)
  from create_signed.IH POST_upload_statuses show ?case
    by (rule ready_follows_uploading_request) simp
next
  case (create_direct w env req)
  from create_direct.IH POST_upload_direct_statuses show ?case
    by (rule ready_follows_uploading_request) simp
next
  case (direct_upload w env i buffer)
  from direct_upload.IH PUT_statuses show ?case
    by (rule ready_follows_uploading_request) simp
next
  case (transfer w env i)
  from transfer.IH POST_transfer_statuses show ?case
    by (rule ready_follows_uploading_request) (simp split: option.splits)
next
  case (read_recording w env i view)
  then show ?case by (simp add: GET_statuses)
next
  case (rename w env i t)
  then show ?case by (simp add: PATCH_statuses)
next
  case (delete w env i)
  then show ?case by (simp add: DELETE_statuses)
next
  case (share_page w env i)
  then show ?case by (simp add: VideoPage_statuses)
next
  case (create_upload w env f t d)
  from create_upload.IH POST_recordings_statuses show ?case
    by (rule ready_follows_uploading_request) simp
next
  case (background_upload w env j)
  from background_upload.IH uploadInBackground_statuses show ?case
    by (rule ready_follows_uploading_request) simp
next
  case (legacy_upload w env recordingId buffer)
  from legacy_upload.IH PUT_legacy_statuses show ?case
    by (rule ready_follows_uploading_request) (simp split: option.splits)
next
  case (earlier_upload w env i buffer)
  from earlier_upload.IH PUT_earlier_statuses show ?case
    by (rule ready_follows_uploading_request) simp
qed


section \<open>The status values a recording passes through\<close>

text \<open>
  Claim C1, as stated, fails. The recording of \<open>world_ready\<close> is \<open>Ready\<close>. A direct
  upload with an empty payload for it is not refused: the handler writes \<open>Uploading\<close>
  and then \<open>Error\<close>, so the recording leaves \<open>Ready\<close> without being deleted.
\<close>

theorem ready_is_left_counterexample:
  "reachable world_ready
   \<and> map_option status (recordings world_ready ''abc12345'') = Some Ready
   \<and> fst (PUT demo_env ''abc12345'' [] world_ready)
       = Response 400 (Error_message ''Empty video file received'')
   \<and> map_option status (recordings (snd (PUT demo_env ''abc12345'' [] world_ready)) ''abc12345'')
       = Some Error
   \<and> journal (snd (PUT demo_env ''abc12345'' [] world_ready))
       = [(''abc12345'', Processing), (''abc12345'', Uploading), (''abc12345'', Ready),
          (''abc12345'', Uploading), (''abc12345'', Error)]"
  using reachable_world_ready by (simp add: run_defs demo_defs world_ready_def)

text \<open>
  Claim C1, amended. What one request writes to the status of a recording is fixed by
  the request and by the state, and the status that the recording holds is no part of
  it. The direct upload writes \<open>Uploading\<close> and then \<open>Ready\<close> or \<open>Error\<close> whenever
  the recording exists and the settings name a folder; its earlier version does the
  same without the check for an empty payload. The transfer trigger, for a recording
  with a non-empty holding path, writes \<open>Error\<close> when the object is missing or the
  existence check throws, nothing when no folder is configured, and otherwise
  \<open>Uploading\<close> and then \<open>Ready\<close> or \<open>Error\<close>. The upload handler of the direct
  path writes \<open>Uploading\<close> and, unless Drive fails, \<open>Ready\<close>; when Drive fails the
  recording stays in \<open>Uploading\<close>. The create handlers write \<open>Processing\<close> for the
  new id, and the upload that \<^verbatim>\<open>POST /api/recordings\<close> starts then writes \<open>Uploading\<close>
  and \<open>Ready\<close> or \<open>Error\<close>. Reading, renaming, viewing and deleting write no
  status. So a recording that is \<open>Ready\<close> or \<open>Error\<close> is moved to \<open>Uploading\<close>
  again by these requests. With the requests handled one after the other, every
  \<open>Ready\<close> of the journal comes directly after an \<open>Uploading\<close> written to the same
  recording, never directly after \<open>Processing\<close>, and the last status written to a
  recording of the ledger is the status it holds.
\<close>

theorem status_writes_of_a_request:
  "journal (snd (PUT env i buf w)) = journal w @
     (if recordings w i = None \<or> \<not> configured w then []
      else [(i, Uploading), (i, if buf \<noteq> [] \<and> drive_ok env then Ready else Error)])
   \<and> journal (snd (PUT_earlier env i buf w)) = journal w @
     (if recordings w i = None \<or> \<not> configured w then []
      else [(i, Uploading), (i, if drive_ok env then Ready else Error)])
   \<and> journal (snd (POST_transfer env i w)) = journal w @
     (case recordings w i of
        None \<Rightarrow> []
      | Some r \<Rightarrow>
          (case gcsPath r of
             None \<Rightarrow> []
           | Some p \<Rightarrow>
               if p = [] then []
               else if \<not> gcs_exists_ok env \<or> bucket w p = None then [(i, Error)]
               else if \<not> configured w then []
               else [(i, Uploading),
                     (i, if gcs_download_ok env \<and> drive_ok env then Ready else Error)]))
   \<and> journal (snd (PUT_legacy env q buf w)) = journal w @
     (case q of
        None \<Rightarrow> []
      | Some k \<Rightarrow>
          if k = [] \<or> \<not> configured w \<or> recordings w k = None then []
          else (k, Uploading) # (if drive_ok env then [(k, Ready)] else []))
   \<and> journal (snd (POST_upload env req w)) = journal w @
     (if req = None \<or> \<not> configured w \<or> \<not> gcs_sign_ok env then []
      else [(take 8 (uuid env), Processing)])
   \<and> journal (snd (POST_upload_direct env req w)) = journal w @
     (if req = None \<or> \<not> configured w then [] else [(take 8 (uuid env), Processing)])
   \<and> journal (snd (POST_recordings_upload env vf ttl dur w)) = journal w @
     (if vf = None \<or> \<not> configured w then []
      else [(take 8 (uuid env), Processing), (take 8 (uuid env), Uploading),
            (take 8 (uuid env), if drive_ok env then Ready else Error)])
   \<and> journal (snd (POST_recordings env vf ttl dur w)) = journal w @
     (if vf = None \<or> \<not> configured w then [] else [(take 8 (uuid env), Processing)])
   \<and> journal (snd (uploadInBackground env j w)) = journal w @
     (if recordings w (job_recordingId j) = None then []
      else [(job_recordingId j, Uploading),
            (job_recordingId j, if drive_ok env then Ready else Error)])
   \<and> journal (snd (PATCH_recording env i t w)) = journal w
   \<and> journal (snd (GET_recording env i view w)) = journal w
   \<and> journal (snd (VideoPage env i w)) = journal w
   \<and> journal (snd (DELETE_recording env i w)) = journal w
   \<and> journal (saveSettings s w) = journal w
   \<and> (reachable w \<longrightarrow> ready_follows_uploading None (journal w))
   \<and> (reachable w \<and> recordings w i = Some d \<longrightarrow>
        statuses_of i (journal w) \<noteq> [] \<and> last (statuses_of i (journal w)) = status d)"
proof -
  have "reachable w \<and> recordings w i = Some d \<longrightarrow>
        statuses_of i (journal w) \<noteq> [] \<and> last (statuses_of i (journal w)) = status d"
    using reachable_history [of w] by (auto simp: journal_is_history_def)
  moreover have "journal (saveSettings s w) = journal w"
    by (simp add: saveSettings_def)
  moreover note PUT_statuses [of env i buf w] PUT_earlier_statuses [of env i buf w]
    POST_transfer_statuses [of env i w] PUT_legacy_statuses [of env q buf w]
    POST_upload_statuses [of env req w] POST_upload_direct_statuses [of env req w]
    POST_recordings_upload_statuses [of env vf ttl dur w]
    POST_recordings_statuses [of env vf ttl dur w] uploadInBackground_statuses [of env j w]
    PATCH_statuses [of env i t w] GET_statuses [of env i view w] VideoPage_statuses [of env i w]
    DELETE_statuses [of env i w]
  moreover have "reachable w \<longrightarrow> ready_follows_uploading None (journal w)"
    using reachable_ready_follows_uploading [of w] by blast
  ultimately show ?thesis by (intro conjI) assumption+
qed

theorem status_writes_of_a_request_witness:
  "reachable world_ready
   \<and> map_option status (recordings world_ready ''abc12345'') = Some Ready
   \<and> statuses_of ''abc12345'' (journal world_ready) = [Processing, Uploading, Ready]
   \<and> ready_follows_uploading None (journal world_ready)
   \<and> journal (snd (PUT demo_env ''abc12345'' [1] world_ready))
       = journal world_ready @ [(''abc12345'', Uploading), (''abc12345'', Ready)]
   \<and> journal (snd (PUT demo_env ''abc12345'' [] world_ready))
       = journal world_ready @ [(''abc12345'', Uploading), (''abc12345'', Error)]"
proof -
  note t = status_writes_of_a_request [where w = world_ready and i = "''abc12345''"
      and env = demo_env
      and d = "demo_recording\<lparr> gcsPath := None, status := Ready, driveFileId := ''drv1'',
         fileSize := 1, updatedAt := 201 \<rparr>"]
  have c: "recordings world_ready ''abc12345'' \<noteq> None" "configured world_ready"
    "drive_ok demo_env"
    by (simp_all add: world_ready_def configured_def getSettings_def demo_settings_def
        drive_ok_def demo_env_def)
  have a: "journal (snd (PUT demo_env ''abc12345'' [1] world_ready))
       = journal world_ready @ [(''abc12345'', Uploading), (''abc12345'', Ready)]"
    using t [where buf = "[1]"] c by simp
  have b: "journal (snd (PUT demo_env ''abc12345'' [] world_ready))
       = journal world_ready @ [(''abc12345'', Uploading), (''abc12345'', Error)]"
    using t [where buf = "[]"] c by simp
  have "ready_follows_uploading None (journal world_ready)"
    using t reachable_world_ready by blast
  moreover have "statuses_of ''abc12345'' (journal world_ready) = [Processing, Uploading, Ready]"
    by (simp add: world_ready_def demo_recording_def set_status_def no_updates_def
        log_status_def statuses_of_def)
  moreover have "map_option status (recordings world_ready ''abc12345'') = Some Ready"
    by (simp add: world_ready_def)
  ultimately show ?thesis using a b reachable_world_ready by simp
qed

section \<open>Ready recordings and their references\<close>

text \<open>
  Claim C2, as stated, fails. The recording of \<open>world_signed\<close> was created with a
  holding path. A direct upload for it succeeds and marks it \<open>Ready\<close>; the write sets
  the file reference and the size and leaves the holding path in place.
\<close>

theorem ready_with_holding_path_counterexample:
  "reachable (snd (PUT demo_env ''abc12345'' [1] world_signed))
   \<and> fst (PUT demo_env ''abc12345'' [1] world_signed) = Response 200 (Upload_done ''drv1'')
   \<and> map_option status (recordings (snd (PUT demo_env ''abc12345'' [1] world_signed)) ''abc12345'')
       = Some Ready
   \<and> map_option gcsPath (recordings (snd (PUT demo_env ''abc12345'' [1] world_signed)) ''abc12345'')
       = Some (Some ''uploads/abc12345.webm'')"
proof -
  have "reachable (snd (PUT demo_env ''abc12345'' [1] world_signed))"
    by (rule reachable.direct_upload [OF reachable_world_signed]) (simp add: demo_env_def)
  then show ?thesis by (simp add: run_defs demo_defs)
qed

text \<open>
  Claim C2, amended. In every reachable state a recording that is \<open>Ready\<close> has a
  non-empty file reference, and every write to the ledger that has set the status
  \<open>Ready\<close> carries a non-empty file reference in the same write. A successful
  transfer makes two writes, \<open>Uploading\<close> and then one update that sets the file
  reference it answers, the status \<open>Ready\<close> and the empty holding path together; the
  recording is then \<open>Ready\<close> with that file reference and the holding path empty. A
  successful direct upload makes two writes, \<open>Uploading\<close> and then one update that
  sets the file reference it answers, the status \<open>Ready\<close> and the file size, and no
  holding path; the recording is then \<open>Ready\<close> with that file reference, and its
  holding path is what it was before.
\<close>

theorem ready_implies_file_ref:
  "(reachable w \<and> recordings w i = Some d \<and> status d = Ready \<longrightarrow> driveFileId d \<noteq> [])
   \<and> (reachable w \<and> x \<in> set (writes w) \<and> sets_ready x \<longrightarrow>
        (\<exists>f. file_ref_written x = Some f \<and> f \<noteq> []))
   \<and> (POST_transfer env i w = (Response 200 b, w') \<longrightarrow>
        (\<exists>fid r'. b = Upload_done fid \<and> drive_create env = Some fid
           \<and> writes w' = writes w @
               [Update_doc i ((set_status Uploading)\<lparr> u_updatedAt := Some (clock env 0) \<rparr>),
                Update_doc i (no_updates\<lparr> u_driveFileId := Some fid, u_status := Some Ready,
                                u_gcsPath := Some [], u_updatedAt := Some (clock env 1) \<rparr>)]
           \<and> recordings w' i = Some r' \<and> status r' = Ready \<and> driveFileId r' = fid
           \<and> gcsPath r' = Some []))
   \<and> (PUT env i buf w = (Response 200 b, w') \<longrightarrow>
        (\<exists>fid r r'. b = Upload_done fid \<and> drive_create env = Some fid
           \<and> writes w' = writes w @
               [Update_doc i ((set_status Uploading)\<lparr> u_updatedAt := Some (clock env 0) \<rparr>),
                Update_doc i (no_updates\<lparr> u_driveFileId := Some fid, u_status := Some Ready,
                                u_fileSize := Some (int (length buf)),
                                u_updatedAt := Some (clock env 1) \<rparr>)]
           \<and> recordings w i = Some r \<and> recordings w' i = Some r' \<and> status r' = Ready
           \<and> driveFileId r' = fid \<and> gcsPath r' = gcsPath r))"
proof (intro conjI impI)
  assume "reachable w \<and> recordings w i = Some d \<and> status d = Ready"
  with reachable_ready_has_ref [of w] show "driveFileId d \<noteq> []"
    by (auto simp: ready_has_ref_def)
next
  assume a: "reachable w \<and> x \<in> set (writes w) \<and> sets_ready x"
  with reachable_ready_writes [of w] have "ready_write_ok x"
    by (auto simp: list_all_iff)
  with a show "\<exists>f. file_ref_written x = Some f \<and> f \<noteq> []"
    by (cases "file_ref_written x") (simp_all add: ready_write_ok_def)
next
  assume "POST_transfer env i w = (Response 200 b, w')"
  then show "\<exists>fid r'. b = Upload_done fid \<and> drive_create env = Some fid
           \<and> writes w' = writes w @
               [Update_doc i ((set_status Uploading)\<lparr> u_updatedAt := Some (clock env 0) \<rparr>),
                Update_doc i (no_updates\<lparr> u_driveFileId := Some fid, u_status := Some Ready,
                                u_gcsPath := Some [], u_updatedAt := Some (clock env 1) \<rparr>)]
           \<and> recordings w' i = Some r' \<and> status r' = Ready \<and> driveFileId r' = fid
           \<and> gcsPath r' = Some []"
    by (rule POST_transfer_success) (simp add: merge_fields_def no_updates_def)
next
  assume "PUT env i buf w = (Response 200 b, w')"
  then show "\<exists>fid r r'. b = Upload_done fid \<and> drive_create env = Some fid
           \<and> writes w' = writes w @
               [Update_doc i ((set_status Uploading)\<lparr> u_updatedAt := Some (clock env 0) \<rparr>),
                Update_doc i (no_updates\<lparr> u_driveFileId := Some fid, u_status := Some Ready,
                                u_fileSize := Some (int (length buf)),
                                u_updatedAt := Some (clock env 1) \<rparr>)]
           \<and> recordings w i = Some r \<and> recordings w' i = Some r' \<and> status r' = Ready
           \<and> driveFileId r' = fid \<and> gcsPath r' = gcsPath r"
    by (rule PUT_success) (simp add: merge_fields_def no_updates_def set_status_def)
qed

theorem ready_implies_file_ref_witness:
  "reachable world_ready
   \<and> map_option status (recordings world_ready ''abc12345'') = Some Ready
   \<and> map_option driveFileId (recordings world_ready ''abc12345'') = Some ''drv1''
   \<and> sets_ready (last (writes world_ready))
   \<and> file_ref_written (last (writes world_ready)) = Some ''drv1''
   \<and> reachable world_held
   \<and> fst (POST_transfer demo_env ''abc12345'' world_held) = Response 200 (Upload_done ''drv1'')
   \<and> map_option gcsPath (recordings (snd (POST_transfer demo_env ''abc12345'' world_held))
         ''abc12345'') = Some (Some [])
   \<and> writes (snd (POST_transfer demo_env ''abc12345'' world_held)) = writes world_held @
       [Update_doc ''abc12345'' ((set_status Uploading)\<lparr> u_updatedAt := Some 200 \<rparr>),
        Update_doc ''abc12345'' (no_updates\<lparr> u_driveFileId := Some ''drv1'',
           u_status := Some Ready, u_gcsPath := Some [], u_updatedAt := Some 201 \<rparr>)]
   \<and> reachable world_direct
   \<and> fst (PUT demo_env ''abc12345'' [1] world_direct) = Response 200 (Upload_done ''drv1'')
   \<and> map_option gcsPath (recordings (snd (PUT demo_env ''abc12345'' [1] world_direct))
         ''abc12345'') = Some None
   \<and> writes (snd (PUT demo_env ''abc12345'' [1] world_direct)) = writes world_direct @
       [Update_doc ''abc12345'' ((set_status Uploading)\<lparr> u_updatedAt := Some 200 \<rparr>),
        Update_doc ''abc12345'' (no_updates\<lparr> u_driveFileId := Some ''drv1'',
           u_status := Some Ready, u_fileSize := Some 1, u_updatedAt := Some 201 \<rparr>)]"
proof -
  have x: "sets_ready (last (writes world_ready))"
    "last (writes world_ready) \<in> set (writes world_ready)"
    by (simp_all add: world_ready_def sets_ready_def log_status_def no_updates_def)
  have r: "recordings world_ready ''abc12345''
      = Some (demo_recording\<lparr> gcsPath := None, status := Ready, driveFileId := ''drv1'',
         fileSize := 1, updatedAt := 201 \<rparr>)"
    by (simp add: world_ready_def)
  from ready_implies_file_ref [where w = world_ready and i = "''abc12345''"
      and d = "demo_recording\<lparr> gcsPath := None, status := Ready, driveFileId := ''drv1'',
         fileSize := 1, updatedAt := 201 \<rparr>", THEN conjunct1] reachable_world_ready r
  have a1: "map_option driveFileId (recordings world_ready ''abc12345'') = Some ''drv1''"
    by simp
  from ready_implies_file_ref [where w = world_ready and x = "last (writes world_ready)",
      THEN conjunct2, THEN conjunct1] reachable_world_ready x
  have a2: "file_ref_written (last (writes world_ready)) = Some ''drv1''"
    by (auto simp: world_ready_def file_ref_written_def no_updates_def)
  from ready_implies_file_ref [where w = world_held and i = "''abc12345''" and env = demo_env
      and b = "Upload_done ''drv1''"
      and w' = "snd (POST_transfer demo_env ''abc12345'' world_held)",
      THEN conjunct2, THEN conjunct2, THEN conjunct1] demo_transfer_run
  have b: "map_option gcsPath (recordings (snd (POST_transfer demo_env ''abc12345'' world_held))
         ''abc12345'') = Some (Some [])"
    "writes (snd (POST_transfer demo_env ''abc12345'' world_held)) = writes world_held @
       [Update_doc ''abc12345'' ((set_status Uploading)\<lparr> u_updatedAt := Some 200 \<rparr>),
        Update_doc ''abc12345'' (no_updates\<lparr> u_driveFileId := Some ''drv1'',
           u_status := Some Ready, u_gcsPath := Some [], u_updatedAt := Some 201 \<rparr>)]"
    by (auto simp: demo_env_def)
  from ready_implies_file_ref [where w = world_direct and i = "''abc12345''" and env = demo_env
      and buf = "[1]" and b = "Upload_done ''drv1''"
      and w' = "snd (PUT demo_env ''abc12345'' [1] world_direct)",
      THEN conjunct2, THEN conjunct2, THEN conjunct2] demo_PUT_run
  have c: "map_option gcsPath (recordings (snd (PUT demo_env ''abc12345'' [1] world_direct))
         ''abc12345'') = Some None"
    "writes (snd (PUT demo_env ''abc12345'' [1] world_direct)) = writes world_direct @
       [Update_doc ''abc12345'' ((set_status Uploading)\<lparr> u_updatedAt := Some 200 \<rparr>),
        Update_doc ''abc12345'' (no_updates\<lparr> u_driveFileId := Some ''drv1'',
           u_status := Some Ready, u_fileSize := Some 1, u_updatedAt := Some 201 \<rparr>)]"
    by (auto simp: demo_env_def world_direct_def)
  have p: "fst (PUT demo_env ''abc12345'' [1] world_direct) = Response 200 (Upload_done ''drv1'')"
    by (simp add: world_ready_uploaded)
  from a1 a2 b c x(1) r reachable_world_ready reachable_world_held reachable_world_direct
    demo_transfer p
  show ?thesis by simp
qed

end
